theory Spec2Isabelle
  imports Main "HOL-Library.Word" "HOL-Library.Char_ord" "HOL-Library.List_Lexorder"
begin

section \<open>The Azure blob backend of tigrisfs (core/backend\_azblob.go)\<close>

text \<open>
  The development embeds the methods of \<open>AZBlob\<close> as HOL functions. Go strings are
  byte strings (\<open>string\<close>, compared byte-wise as Go compares them), a Go \<open>error\<close>
  is a value of type \<open>error\<close> and \<open>nil\<close> is \<open>None\<close>, a Go map is a partial
  function. The Azure service, the helpers declared in other files of the package and
  \<open>strings.ToLower\<close> of the Go library are arguments of the functions that call
  them.
\<close>

subsection \<open>Errors\<close>

text \<open>
  The \<open>syscall.Errno\<close> values named in the file; \<open>Errno n\<close> stands for any other
  errno (\<open>mapHttpError\<close> may return one).
\<close>

datatype errno =
  EACCES | EAGAIN | EBUSY | EEXIST | EINVAL | ENODEV | ENOENT | ENOSYS | ENOTSUP | Errno nat

text \<open>
  An \<open>azblob.StorageError\<close> as far as the file reads it: its service code and the
  status code of its HTTP response.
\<close>

record StorageError =
  ServiceCode :: string
  StatusCode :: int

text \<open>
  A Go \<open>error\<close>: an errno, a storage error of the Azure SDK, or any other error
  (a transport failure, say), identified by its text.
\<close>

datatype error = Sys errno | Stg StorageError | Other string

text \<open>
  The service codes of the Azure SDK that \<open>mapAZBError\<close> names. They are constants of
  the package \<open>azblob\<close>; each is the string the service sends.
\<close>

definition ServiceCodeBlobAlreadyExists :: string where
  "ServiceCodeBlobAlreadyExists = ''BlobAlreadyExists''"
definition ServiceCodeBlobNotFound :: string where
  "ServiceCodeBlobNotFound = ''BlobNotFound''"
definition ServiceCodeContainerAlreadyExists :: string where
  "ServiceCodeContainerAlreadyExists = ''ContainerAlreadyExists''"
definition ServiceCodeContainerBeingDeleted :: string where
  "ServiceCodeContainerBeingDeleted = ''ContainerBeingDeleted''"
definition ServiceCodeContainerDisabled :: string where
  "ServiceCodeContainerDisabled = ''ContainerDisabled''"
definition ServiceCodeContainerNotFound :: string where
  "ServiceCodeContainerNotFound = ''ContainerNotFound''"
definition ServiceCodeCopyAcrossAccountsNotSupported :: string where
  "ServiceCodeCopyAcrossAccountsNotSupported = ''CopyAcrossAccountsNotSupported''"
definition ServiceCodeSourceConditionNotMet :: string where
  "ServiceCodeSourceConditionNotMet = ''SourceConditionNotMet''"
definition ServiceCodeSystemInUse :: string where
  "ServiceCodeSystemInUse = ''SystemInUse''"
definition ServiceCodeTargetConditionNotMet :: string where
  "ServiceCodeTargetConditionNotMet = ''TargetConditionNotMet''"
definition ServiceCodeBlobBeingRehydrated :: string where
  "ServiceCodeBlobBeingRehydrated = ''BlobBeingRehydrated''"
definition ServiceCodeBlobArchived :: string where
  "ServiceCodeBlobArchived = ''BlobArchived''"
definition ServiceCodeAccountBeingCreated :: string where
  "ServiceCodeAccountBeingCreated = ''AccountBeingCreated''"
definition ServiceCodeAuthenticationFailed :: string where
  "ServiceCodeAuthenticationFailed = ''AuthenticationFailed''"
definition ServiceCodeConditionNotMet :: string where
  "ServiceCodeConditionNotMet = ''ConditionNotMet''"
definition ServiceCodeInternalError :: string where
  "ServiceCodeInternalError = ''InternalError''"
definition ServiceCodeInvalidAuthenticationInfo :: string where
  "ServiceCodeInvalidAuthenticationInfo = ''InvalidAuthenticationInfo''"
definition ServiceCodeOperationTimedOut :: string where
  "ServiceCodeOperationTimedOut = ''OperationTimedOut''"
definition ServiceCodeResourceNotFound :: string where
  "ServiceCodeResourceNotFound = ''ResourceNotFound''"
definition ServiceCodeServerBusy :: string where
  "ServiceCodeServerBusy = ''ServerBusy''"

lemmas ServiceCode_defs =
  ServiceCodeBlobAlreadyExists_def ServiceCodeBlobNotFound_def
  ServiceCodeContainerAlreadyExists_def ServiceCodeContainerBeingDeleted_def
  ServiceCodeContainerDisabled_def ServiceCodeContainerNotFound_def
  ServiceCodeCopyAcrossAccountsNotSupported_def ServiceCodeSourceConditionNotMet_def
  ServiceCodeSystemInUse_def ServiceCodeTargetConditionNotMet_def
  ServiceCodeBlobBeingRehydrated_def ServiceCodeBlobArchived_def
  ServiceCodeAccountBeingCreated_def ServiceCodeAuthenticationFailed_def
  ServiceCodeConditionNotMet_def ServiceCodeInternalError_def
  ServiceCodeInvalidAuthenticationInfo_def ServiceCodeOperationTimedOut_def
  ServiceCodeResourceNotFound_def ServiceCodeServerBusy_def

text \<open>
  \<open>mapAZBError\<close> (lines 349-410). A \<open>nil\<close> error is returned as it is; every path
  for an error that is not \<open>nil\<close> returns an error that is not \<open>nil\<close>, so that part
  is the function \<open>mapAZBError_nonnil\<close> on errors. The switch takes the first case
  that equals the service code. \<open>mapHttpError\<close> is declared in another file of the
  package and is the first argument here: it maps an HTTP status to an error or to
  \<open>nil\<close>. The log line of the last branch is not modelled.
\<close>

definition mapAZBError_nonnil :: "(int \<Rightarrow> error option) \<Rightarrow> error \<Rightarrow> error" where
  "mapAZBError_nonnil mapHttpError err =
    (case err of
       Stg stgErr \<Rightarrow>
         (let code = ServiceCode stgErr in
          if code = ServiceCodeBlobAlreadyExists then Sys EACCES
          else if code = ServiceCodeBlobNotFound then Sys ENOENT
          else if code = ServiceCodeContainerAlreadyExists then Sys EEXIST
          else if code = ServiceCodeContainerBeingDeleted then Sys EAGAIN
          else if code = ServiceCodeContainerDisabled then Sys EACCES
          else if code = ServiceCodeContainerNotFound then Sys ENODEV
          else if code = ServiceCodeCopyAcrossAccountsNotSupported then Sys EINVAL
          else if code = ServiceCodeSourceConditionNotMet then Sys EINVAL
          else if code = ServiceCodeSystemInUse then Sys EAGAIN
          else if code = ServiceCodeTargetConditionNotMet then Sys EINVAL
          else if code = ServiceCodeBlobBeingRehydrated then Sys EAGAIN
          else if code = ServiceCodeBlobArchived then Sys EINVAL
          else if code = ServiceCodeAccountBeingCreated then Sys EAGAIN
          else if code = ServiceCodeAuthenticationFailed then Sys EACCES
          else if code = ServiceCodeConditionNotMet then Sys EBUSY
          else if code = ServiceCodeInternalError then Sys EAGAIN
          else if code = ServiceCodeInvalidAuthenticationInfo then Sys EACCES
          else if code = ServiceCodeOperationTimedOut then Sys EAGAIN
          else if code = ServiceCodeResourceNotFound then Sys ENOENT
          else if code = ServiceCodeServerBusy then Sys EAGAIN
          else if code = ''AuthorizationFailure'' then Sys EACCES
          else (case mapHttpError (StatusCode stgErr) of
                  Some e \<Rightarrow> e
                | None \<Rightarrow> Stg stgErr))
     | _ \<Rightarrow> err)"

definition mapAZBError :: "(int \<Rightarrow> error option) \<Rightarrow> error option \<Rightarrow> error option" where
  "mapAZBError mapHttpError err =
    (case err of
       None \<Rightarrow> None
     | Some e \<Rightarrow> Some (mapAZBError_nonnil mapHttpError e))"

text \<open>The service codes that have a case of their own in the switch of \<open>mapAZBError\<close>.\<close>

definition switch_codes :: "string list" where
  "switch_codes =
    [ServiceCodeBlobAlreadyExists, ServiceCodeBlobNotFound, ServiceCodeContainerAlreadyExists,
     ServiceCodeContainerBeingDeleted, ServiceCodeContainerDisabled, ServiceCodeContainerNotFound,
     ServiceCodeCopyAcrossAccountsNotSupported, ServiceCodeSourceConditionNotMet,
     ServiceCodeSystemInUse, ServiceCodeTargetConditionNotMet, ServiceCodeBlobBeingRehydrated,
     ServiceCodeBlobArchived, ServiceCodeAccountBeingCreated, ServiceCodeAuthenticationFailed,
     ServiceCodeConditionNotMet, ServiceCodeInternalError, ServiceCodeInvalidAuthenticationInfo,
     ServiceCodeOperationTimedOut, ServiceCodeResourceNotFound, ServiceCodeServerBusy,
     ''AuthorizationFailure'']"

text \<open>A storage error with the given service code and HTTP status.\<close>

definition stg :: "string \<Rightarrow> int \<Rightarrow> error option" where
  "stg code status = Some (Stg \<lparr>ServiceCode = code, StatusCode = status\<rparr>)"

subsection \<open>Strings, pointers and maps\<close>

text \<open>\<open>strings.HasSuffix\<close> of the Go library.\<close>

definition HasSuffix :: "string \<Rightarrow> string \<Rightarrow> bool" where
  "HasSuffix s suffix =
    (length suffix \<le> length s \<and> drop (length s - length suffix) s = suffix)"

text \<open>
  \<open>strings.ToLower\<close> of the Go library maps every Unicode letter of a string to its
  lower case (\<open>A\<close> to \<open>a\<close>, and also U+00C9 to U+00E9, U+0130 to \<open>i\<close>). It is
  not code of this file and its tables are not modelled: a function that calls it takes
  it as an argument (the field \<open>ToLower\<close> of \<open>pkg\<close> below), and a property that
  needs a fact about it has that fact as a hypothesis.

  The examples run on ASCII keys, where \<open>strings.ToLower\<close> is \<open>ToLower_ascii\<close>:
  the letters \<open>A\<close> to \<open>Z\<close> become \<open>a\<close> to \<open>z\<close> (the bit of value 32 is set, which
  adds \<open>'a' - 'A'\<close>) and every other ASCII byte stays.
\<close>

definition ascii_lower :: "char \<Rightarrow> char" where
  "ascii_lower c =
    (if CHR ''A'' \<le> c \<and> c \<le> CHR ''Z''
     then Char (digit0 c) (digit1 c) (digit2 c) (digit3 c) (digit4 c) True (digit6 c) (digit7 c)
     else c)"

definition ToLower_ascii :: "string \<Rightarrow> string" where
  "ToLower_ascii s = map ascii_lower s"

text \<open>
  \<open>NilStr\<close> is declared in another file of the package; it is modelled after its
  sibling \<open>nilUint32\<close> (lines 466-472): the value behind the pointer, the zero value
  for \<open>nil\<close>.
\<close>

definition NilStr :: "string option \<Rightarrow> string" where
  "NilStr v = (case v of None \<Rightarrow> [] | Some s \<Rightarrow> s)"

definition nilUint32 :: "32 word option \<Rightarrow> 32 word" where
  "nilUint32 v = (case v of None \<Rightarrow> 0 | Some w \<Rightarrow> w)"

definition AzuriteEndpoint :: string where
  "AzuriteEndpoint = ''http://127.0.0.1:8080/devstoreaccount1/''"

definition AzureDirBlobMetadataKey :: string where
  "AzureDirBlobMetadataKey = ''hdi_isfolder''"

text \<open>
  \<open>nilMetadata\<close> (lines 412-419). Its first argument is \<open>strings.ToLower\<close>. Go
  visits the keys of a map in an order of the runtime's choice; that order is the
  second argument (a list of the keys of \<open>m\<close>, each once: \<open>range_order\<close>). Two keys
  that \<open>strings.ToLower\<close> maps to the same string are written to the same key of the
  result, the later one last.
\<close>

definition range_order :: "string list \<Rightarrow> (string \<rightharpoonup> 'v) \<Rightarrow> bool" where
  "range_order order m = (distinct order \<and> set order = dom m)"

definition nilMetadata ::
  "(string \<Rightarrow> string) \<Rightarrow> string list \<Rightarrow> (string \<rightharpoonup> string option) \<Rightarrow> (string \<rightharpoonup> string)" where
  "nilMetadata strings_ToLower order m =
    fold (\<lambda>k metadata.
            case m k of
              None \<Rightarrow> metadata
            | Some v \<Rightarrow> metadata(strings_ToLower k \<mapsto> NilStr v))
         order Map.empty"

subsection \<open>The Azure service and the package, as the file sees them\<close>

datatype CopyStatusType =
  CopyStatusNone | CopyStatusPending | CopyStatusSuccess | CopyStatusAborted | CopyStatusFailed

text \<open>The response of \<open>GetProperties\<close>, by the methods the file calls on it.\<close>

record BlobGetPropertiesResponse =
  NewMetadata :: "string \<rightharpoonup> string"
  RespETag :: string
  RespLastModified :: nat
  RespContentLength :: "64 word"
  RespAccessTier :: string
  RespContentType :: string
  CopyStatus :: CopyStatusType
  CopyID :: string

text \<open>
  A blob of a listing (\<open>azblob.BlobItemInternal\<close>); \<open>ContentLength\<close> is a pointer in
  the SDK.
\<close>

record BlobItemInternal =
  Name :: string
  Etag :: string
  PropLastModified :: nat
  ContentLength :: "64 word option"
  AccessTier :: string
  BlobMetadata :: "string \<rightharpoonup> string"

record ListBlobsSegmentOptions =
  OptPrefix :: string
  MaxResults :: "32 word"

text \<open>
  One segment of a listing: the names of the blob prefixes, the blobs and the next
  marker.
\<close>

record ListBlobsSegmentResponse =
  BlobPrefixes :: "string list"
  BlobItems :: "BlobItemInternal list"
  NextMarker :: "string option"

record DownloadResponse =
  DlMetadata :: "string \<rightharpoonup> string"
  DlETag :: string
  DlLastModified :: nat
  DlContentLength :: "64 word"
  DlContentType :: string
  DlBody :: string

record BlockBlobUploadResponse =
  UpETag :: string
  UpLastModified :: nat

text \<open>
  The container as the file reaches it through \<open>b.c\<close>: what the service answers to
  each request. \<open>GetProperties\<close> and \<open>Delete\<close> take the blob's name;
  the listings take the marker, (the delimiter,) and the options; \<open>Download\<close> takes
  the name, offset, count and the \<open>IfMatch\<close> tag; \<open>Upload\<close> takes the name, the
  body, the content type and the metadata. \<open>StartCopyFromURL\<close> takes the
  destination, the source and the metadata and answers with the copy status and the
  copy id. A copy proceeds in the service while the client polls, so the answers of
  \<open>GetProperties\<close> to the polls of \<open>CopyBlob\<close> are a sequence of their own:
  \<open>PollProperties dest n\<close> is the answer to poll number \<open>n\<close> (from 0) on the
  destination. \<open>StageBlock\<close> takes the name, the block id and the body,
  \<open>StageBlockFromURL\<close> the name, the block id, the source, offset and size,
  \<open>CommitBlockList\<close> the name, the block ids and the metadata.
\<close>

record Service =
  GetProperties :: "string \<Rightarrow> error + BlobGetPropertiesResponse"
  ListBlobsHierarchySegment ::
    "string option \<Rightarrow> string \<Rightarrow> ListBlobsSegmentOptions \<Rightarrow> error + ListBlobsSegmentResponse"
  ListBlobsFlatSegment ::
    "string option \<Rightarrow> ListBlobsSegmentOptions \<Rightarrow> error + ListBlobsSegmentResponse"
  Download :: "string \<Rightarrow> 64 word \<Rightarrow> 64 word \<Rightarrow> string \<Rightarrow> error + DownloadResponse"
  Upload ::
    "string \<Rightarrow> string \<Rightarrow> string \<Rightarrow> (string \<rightharpoonup> string) \<Rightarrow> error + BlockBlobUploadResponse"
  Delete :: "string \<Rightarrow> error option"
  StartCopyFromURL :: "string \<Rightarrow> string \<Rightarrow> (string \<rightharpoonup> string) \<Rightarrow> error + CopyStatusType \<times> string"
  PollProperties :: "string \<Rightarrow> nat \<Rightarrow> error + BlobGetPropertiesResponse"
  StageBlock :: "string \<Rightarrow> string \<Rightarrow> string \<Rightarrow> error option"
  StageBlockFromURL :: "string \<Rightarrow> string \<Rightarrow> string \<Rightarrow> 64 word \<Rightarrow> 64 word \<Rightarrow> error option"
  CommitBlockList :: "string \<Rightarrow> string list \<Rightarrow> (string \<rightharpoonup> string) \<Rightarrow> error + BlockBlobUploadResponse"

text \<open>
  The service after a successful \<open>Upload\<close>: the properties of the blob are those that
  were uploaded. (This is the service's part of the contract, not code of the file.)
\<close>

definition uploaded ::
  "Service \<Rightarrow> string \<Rightarrow> string \<Rightarrow> string \<Rightarrow> (string \<rightharpoonup> string) \<Rightarrow> BlockBlobUploadResponse \<Rightarrow> Service" where
  "uploaded s name body contentType metadata resp =
    s\<lparr>GetProperties := (GetProperties s)
        (name := Inr \<lparr>NewMetadata = metadata, RespETag = UpETag resp,
                      RespLastModified = UpLastModified resp,
                      RespContentLength = of_nat (length body),
                      RespAccessTier = [], RespContentType = contentType,
                      CopyStatus = CopyStatusNone, CopyID = []\<rparr>)\<rparr>"

text \<open>
  The backend object: the endpoint of its configuration, the outcome of
  \<open>refreshToken\<close> (\<open>nil\<close>, or the error it returns instead of the container URL),
  whether \<open>sasTokenProvider\<close> is \<open>nil\<close>, the error of building the shared-key
  credential and the SAS query of lines 868-882 (\<open>nil\<close> when both succeed), and the
  container.
\<close>

record AZBlob =
  Endpoint :: string
  refreshToken :: "error option"
  sasTokenProvider_nil :: bool
  signError :: "error option"
  container :: Service

text \<open>
  The functions that the file calls and that are declared elsewhere: in other files of
  the package \<open>mapHttpError\<close> (an HTTP status to an error or \<open>nil\<close>) and
  \<open>PMetadata\<close> (a map of strings to a map of string pointers), in the Go library
  \<open>strings.ToLower\<close>.
\<close>

record pkg =
  mapHttpError :: "int \<Rightarrow> error option"
  PMetadata :: "(string \<rightharpoonup> string) \<Rightarrow> (string \<rightharpoonup> string option)"
  ToLower :: "string \<Rightarrow> string"

text \<open>
  What a method returns: its output and a \<open>nil\<close> error, or \<open>nil\<close> and an error;
  \<open>Panic\<close> is a run-time panic of Go (a \<open>nil\<close> pointer dereference, an index out of
  range).
\<close>

datatype 'a result = Ok 'a | Err error | Panic

subsection \<open>HeadBlob, GetBlob\<close>

record BlobItemOutput =
  Key :: string
  ETag :: "string option"
  LastModified :: "nat option"
  Size :: "64 word"
  StorageClass :: "string option"
  Metadata :: "string \<rightharpoonup> string option"

record HeadBlobOutput = BlobItemOutput +
  ContentType :: "string option"
  IsDirBlob :: bool

record GetBlobOutput = HeadBlobOutput +
  Body :: string

text \<open>
  \<open>HeadBlob\<close> (lines 421-464) returns a pair: the output or \<open>nil\<close>, and the error or
  \<open>nil\<close>. For a key that ends in a slash it calls itself on the key without that
  slash, and returns the output of that call together with \<open>ENOENT\<close> when the blob
  is no directory blob. The recursive call never returns \<open>(nil, nil)\<close> (lemma
  \<open>HeadBlob_not_nil_nil\<close>), so the dereference of line 430 is safe.
\<close>

function HeadBlob :: "pkg \<Rightarrow> AZBlob \<Rightarrow> string \<Rightarrow> HeadBlobOutput option \<times> error option" where
  "HeadBlob pk b key =
    (case refreshToken b of
       Some err \<Rightarrow> (None, Some err)
     | None \<Rightarrow>
        if HasSuffix key ''/'' then
          (case HeadBlob pk b (take (length key - 1) key) of
             (Some dirBlob, None) \<Rightarrow>
               if \<not> IsDirBlob dirBlob then (Some dirBlob, Some (Sys ENOENT))
               else (Some dirBlob, None)
           | (dirBlob, err) \<Rightarrow> (dirBlob, err))
        else
          (case GetProperties (container b) key of
             Inl err \<Rightarrow> (None, Some (mapAZBError_nonnil (mapHttpError pk) err))
           | Inr resp \<Rightarrow>
               (let metadata = NewMetadata resp;
                    isDir = HasSuffix key ''/'';
                    isDir = (if \<not> isDir then metadata AzureDirBlobMetadataKey \<noteq> None else isDir);
                    metadata = metadata(AzureDirBlobMetadataKey := None)
                in (Some \<lparr>Key = key, ETag = Some (RespETag resp),
                          LastModified = Some (RespLastModified resp),
                          Size = RespContentLength resp,
                          StorageClass = Some (RespAccessTier resp),
                          Metadata = PMetadata pk metadata,
                          ContentType = Some (RespContentType resp),
                          IsDirBlob = isDir\<rparr>, None))))"
  by pat_completeness auto
termination
  by (relation "measure (\<lambda>(pk, b, key). length key)") (auto simp: HasSuffix_def)

declare HeadBlob.simps [simp del]

record GetBlobInput =
  GetKey :: string
  Start :: "64 word"
  Count :: "64 word"
  IfMatch :: "string option"

text \<open>\<open>GetBlob\<close> (lines 734-773).\<close>

definition GetBlob :: "pkg \<Rightarrow> AZBlob \<Rightarrow> GetBlobInput \<Rightarrow> GetBlobOutput result" where
  "GetBlob pk b param =
    (case refreshToken b of
       Some err \<Rightarrow> Err err
     | None \<Rightarrow>
        (let ifMatch = (case IfMatch param of None \<Rightarrow> [] | Some t \<Rightarrow> t) in
         case Download (container b) (GetKey param) (Start param) (Count param) ifMatch of
           Inl err \<Rightarrow> Err (mapAZBError_nonnil (mapHttpError pk) err)
         | Inr resp \<Rightarrow>
             (let metadata = PMetadata pk (DlMetadata resp);
                  metadata = metadata(AzureDirBlobMetadataKey := None)
              in Ok \<lparr>Key = GetKey param, ETag = Some (DlETag resp),
                     LastModified = Some (DlLastModified resp),
                     Size = DlContentLength resp,
                     StorageClass = None,
                     Metadata = metadata,
                     ContentType = Some (DlContentType resp),
                     IsDirBlob = False,
                     Body = DlBody resp\<rparr>)))"

subsection \<open>ListBlobs\<close>

record ListBlobsInput =
  Prefix :: "string option"
  Delimiter :: "string option"
  MaxKeys :: "32 word option"
  ContinuationToken :: "string option"
  StartAfter :: "string option"

text \<open>
  A \<open>BlobPrefixOutput\<close> has one field, its prefix; the list of prefixes is a list of
  strings. A \<open>nil\<close> slice is the empty list.
\<close>

record ListBlobsOutput =
  Prefixes :: "string list"
  Items :: "BlobItemOutput list"
  NextContinuationToken :: "string option"
  IsTruncated :: bool

text \<open>
  \<open>sort.Search\<close> of the Go library: binary search for the least index in \<open>[0, n)\<close>
  at which \<open>f\<close> holds, as the library writes it (\<open>i, j := 0, n\<close>; the middle
  \<open>h\<close>; \<open>i = h + 1\<close> when \<open>f h\<close> fails, else \<open>j = h\<close>).
\<close>

function Search_loop :: "(nat \<Rightarrow> bool) \<Rightarrow> nat \<Rightarrow> nat \<Rightarrow> nat" where
  "Search_loop f i j =
    (if i < j then
       (let h = (i + j) div 2 in
        if \<not> f h then Search_loop f (h + 1) j else Search_loop f i h)
     else i)"
  by pat_completeness auto
termination
  by (relation "measure (\<lambda>(f, i, j). j - i)") auto

declare Search_loop.simps [simp del]

definition Search :: "nat \<Rightarrow> (nat \<Rightarrow> bool) \<Rightarrow> nat" where
  "Search n f = Search_loop f 0 n"

text \<open>
  \<open>sort.IsSorted\<close> and \<open>sort.Sort\<close> of the Go library, on \<open>sortBlobPrefixOutput\<close> and
  \<open>sortBlobItemOutput\<close>. The two types are declared in another file of the package;
  they order prefixes by \<open>Prefix\<close> and items by \<open>Key\<close> (the order the binary search
  of lines 571-573 relies on). \<open>sort.Sort\<close> returns a sorted permutation and promises
  no order among equal keys; it is modelled by insertion sort.
\<close>

definition sortBlobPrefixOutput :: "string list \<Rightarrow> string list" where
  "sortBlobPrefixOutput prefixes = sort prefixes"

definition sortBlobItemOutput :: "BlobItemOutput list \<Rightarrow> BlobItemOutput list" where
  "sortBlobItemOutput items = sort_key Key items"

text \<open>
  Lines 507-513 and 532-536: the request that \<open>ListBlobs\<close> sends, by the hierarchy
  when a delimiter is given, flat otherwise, and the answer of the service.
\<close>

definition list_request ::
  "AZBlob \<Rightarrow> ListBlobsInput \<Rightarrow> ListBlobsSegmentOptions \<Rightarrow> error + ListBlobsSegmentResponse" where
  "list_request b param options =
    (case Delimiter param of
       Some delimiter \<Rightarrow>
         ListBlobsHierarchySegment (container b) (ContinuationToken param) delimiter options
     | None \<Rightarrow> ListBlobsFlatSegment (container b) (ContinuationToken param) options)"

text \<open>
  Lines 507-548: the request and what the two branches do with the answer; the result
  is the prefixes, the items so far, the blobs of the segment and the next marker. On
  the Azurite endpoint the prefixes are sorted when they are not; in the flat branch
  the list that is sorted is \<open>items\<close>, which is still empty at that point.
\<close>

definition list_segment ::
  "pkg \<Rightarrow> AZBlob \<Rightarrow> ListBlobsInput \<Rightarrow> ListBlobsSegmentOptions \<Rightarrow>
   error + (string list \<times> BlobItemOutput list \<times> BlobItemInternal list \<times> string option)" where
  "list_segment pk b param options =
    (let prefixes = []; items = [] in
     case Delimiter param of
       Some delimiter \<Rightarrow>
         (case list_request b param options of
            Inl err \<Rightarrow> Inl (mapAZBError_nonnil (mapHttpError pk) err)
          | Inr resp \<Rightarrow>
              (let prefixes = prefixes @ BlobPrefixes resp;
                   prefixes = (if Endpoint b = AzuriteEndpoint \<and> \<not> sorted prefixes
                               then sortBlobPrefixOutput prefixes else prefixes)
               in Inr (prefixes, items, BlobItems resp, NextMarker resp)))
     | None \<Rightarrow>
         (case list_request b param options of
            Inl err \<Rightarrow> Inl (mapAZBError_nonnil (mapHttpError pk) err)
          | Inr resp \<Rightarrow>
              (let items = (if Endpoint b = AzuriteEndpoint \<and> \<not> sorted (map Key items)
                            then sortBlobItemOutput items else items)
               in Inr (prefixes, items, BlobItems resp, NextMarker resp))))"

text \<open>Line 565: a blob of the listing carries the directory flag.\<close>

definition is_dir_blob :: "BlobItemInternal \<Rightarrow> bool" where
  "is_dir_blob i =
    (case BlobMetadata i AzureDirBlobMetadataKey of None \<Rightarrow> False | Some v \<Rightarrow> v \<noteq> [])"

text \<open>
  Lines 568-583: a directory blob of a listing with a delimiter becomes a prefix,
  put at the index the binary search gives unless the prefix at that index is the
  same name. (\<open>append\<close>, \<open>copy\<close> and the assignment of lines 579-581 insert the
  name at \<open>idx\<close>.)
\<close>

definition insert_prefix :: "string list \<Rightarrow> string \<Rightarrow> string list" where
  "insert_prefix prefixes name =
    (let n = length prefixes;
         idx = Search n (\<lambda>idx. prefixes ! idx \<ge> name)
     in if idx \<ge> n \<or> prefixes ! idx \<noteq> name then
          (if idx \<ge> n then prefixes @ [name]
           else take idx prefixes @ [name] @ drop idx prefixes)
        else prefixes)"

text \<open>
  Lines 561-600: the loop over the blobs of the segment, on the state (prefixes,
  items, sortItems). \<open>list_item\<close> is the body of the loop for one blob; \<open>None\<close>
  is the panic of line 596 on a blob without content length.
\<close>

definition list_item ::
  "pkg \<Rightarrow> bool \<Rightarrow> BlobItemInternal \<Rightarrow> string list \<times> BlobItemOutput list \<times> bool \<Rightarrow>
   (string list \<times> BlobItemOutput list \<times> bool) option" where
  "list_item pk hasDelimiter i st =
    (case st of (prefixes, items, sortItems) \<Rightarrow>
      (let isDir = is_dir_blob i;
           name = (if isDir then Name i @ ''/'' else Name i)
       in if isDir \<and> hasDelimiter then
            Some (insert_prefix prefixes name, items, sortItems)
          else
            (let sortItems = (if isDir then True else sortItems);
                 pmeta = PMetadata pk (BlobMetadata i);
                 pmeta = pmeta(AzureDirBlobMetadataKey := None)
             in case ContentLength i of
                  None \<Rightarrow> None
                | Some contentLength \<Rightarrow>
                    Some (prefixes,
                          items @ [\<lparr>Key = name, ETag = Some (Etag i),
                                    LastModified = Some (PropLastModified i),
                                    Size = contentLength,
                                    StorageClass = Some (AccessTier i),
                                    Metadata = pmeta\<rparr>],
                          sortItems))))"

fun list_loop ::
  "pkg \<Rightarrow> bool \<Rightarrow> BlobItemInternal list \<Rightarrow> string list \<times> BlobItemOutput list \<times> bool \<Rightarrow>
   (string list \<times> BlobItemOutput list \<times> bool) option" where
  "list_loop pk hasDelimiter [] st = Some st"
| "list_loop pk hasDelimiter (i # blobItems) st =
    (case list_item pk hasDelimiter i st of
       None \<Rightarrow> None
     | Some st' \<Rightarrow> list_loop pk hasDelimiter blobItems st')"

text \<open>
  Lines 602-615: for a prefix that ends in a slash the directory blob itself is
  looked up and appended, its key with the slash again; \<open>ENOENT\<close> is ignored.
\<close>

definition fill_dir_blob ::
  "pkg \<Rightarrow> AZBlob \<Rightarrow> string \<Rightarrow> BlobItemOutput list \<times> bool \<Rightarrow>
   (BlobItemOutput list \<times> bool) result" where
  "fill_dir_blob pk b prefix st =
    (case st of (items, sortItems) \<Rightarrow>
      if HasSuffix prefix ''/'' then
        (case HeadBlob pk b prefix of
           (Some dirBlob, None) \<Rightarrow>
             Ok (items @ [BlobItemOutput.truncate (dirBlob\<lparr>Key := Key dirBlob @ ''/''\<rparr>)], True)
         | (None, None) \<Rightarrow> Panic
         | (_, Some err) \<Rightarrow>
             if err = Sys ENOENT then Ok (items, sortItems) else Err err)
      else Ok (items, sortItems))"

text \<open>
  The test of line 550: the segment has one blob, its name is no longer than the
  prefix, and the prefix ends in a slash.
\<close>

definition prefix_is_blob :: "BlobItemInternal list \<Rightarrow> string \<Rightarrow> bool" where
  "prefix_is_blob blobItems prefix =
    (length blobItems = 1 \<and> length (Name (blobItems ! 0)) \<le> length prefix
     \<and> HasSuffix prefix ''/'')"

text \<open>\<open>ListBlobs\<close> (lines 474-634).\<close>

definition ListBlobs :: "pkg \<Rightarrow> AZBlob \<Rightarrow> ListBlobsInput \<Rightarrow> ListBlobsOutput result" where
  "ListBlobs pk b param =
    (if StartAfter param \<noteq> None then Err (Sys ENOTSUP)
     else case refreshToken b of
       Some err \<Rightarrow> Err err
     | None \<Rightarrow>
        (let options = \<lparr>OptPrefix = NilStr (Prefix param),
                        MaxResults = nilUint32 (MaxKeys param)\<rparr> in
         case list_segment pk b param options of
           Inl err \<Rightarrow> Err err
         | Inr (prefixes, items, blobItems, nextMarker) \<Rightarrow>
             if prefix_is_blob blobItems (OptPrefix options)
             then Ok \<lparr>Prefixes = [], Items = [], NextContinuationToken = None,
                      IsTruncated = False\<rparr>
             else
               (case list_loop pk (Delimiter param \<noteq> None) blobItems (prefixes, items, False) of
                  None \<Rightarrow> Panic
                | Some (prefixes, items, sortItems) \<Rightarrow>
                    (case fill_dir_blob pk b (OptPrefix options) (items, sortItems) of
                       Err err \<Rightarrow> Err err
                     | Panic \<Rightarrow> Panic
                     | Ok (items, sortItems) \<Rightarrow>
                         (let items = (if sortItems then sortBlobItemOutput items else items);
                              nextMarker = (if nextMarker = Some [] then None else nextMarker)
                          in Ok \<lparr>Prefixes = prefixes, Items = items,
                                 NextContinuationToken = nextMarker,
                                 IsTruncated = (nextMarker \<noteq> None)\<rparr>)))))"

subsection \<open>RenameBlob, PutBlob\<close>

text \<open>
  The methods that write are functions from the backend object to a result and the
  backend object after the call.
\<close>

record RenameBlobInput =
  RenameSource :: string
  RenameDestination :: string

text \<open>\<open>RenameBlob\<close> (lines 692-694).\<close>

definition RenameBlob :: "AZBlob \<Rightarrow> RenameBlobInput \<Rightarrow> unit result \<times> AZBlob" where
  "RenameBlob b param = (Err (Sys ENOTSUP), b)"

record PutBlobInput =
  PutKey :: string
  PutMetadata :: "string \<rightharpoonup> string option"
  DirBlob :: bool
  PutBody :: "string option"
  PutContentType :: "string option"

record PutBlobOutput =
  PutETag :: "string option"
  PutLastModified :: "nat option"

text \<open>
  \<open>PutBlob\<close> (lines 775-815). A \<open>nil\<close> map and an empty map give the same metadata
  in lines 784-790. \<open>order\<close> is the order in which \<open>nilMetadata\<close> visits the keys of
  the metadata it is given.
\<close>

function PutBlob ::
  "pkg \<Rightarrow> AZBlob \<Rightarrow> string list \<Rightarrow> PutBlobInput \<Rightarrow> PutBlobOutput result \<times> AZBlob" where
  "PutBlob pk b order param =
    (case refreshToken b of
       Some err \<Rightarrow> (Err err, b)
     | None \<Rightarrow>
        if DirBlob param \<and> HasSuffix (PutKey param) ''/'' then
          PutBlob pk b order
            (param\<lparr>PutKey := take (length (PutKey param) - 1) (PutKey param),
                   PutMetadata := (PutMetadata param)(AzureDirBlobMetadataKey \<mapsto> Some ''true'')\<rparr>)
        else
          (let body = (case PutBody param of None \<Rightarrow> [] | Some r \<Rightarrow> r);
               contentType = NilStr (PutContentType param);
               metadata = nilMetadata (ToLower pk) order (PutMetadata param)
           in case Upload (container b) (PutKey param) body contentType metadata of
                Inl err \<Rightarrow> (Err (mapAZBError_nonnil (mapHttpError pk) err), b)
              | Inr resp \<Rightarrow>
                  (Ok \<lparr>PutETag = Some (UpETag resp),
                       PutLastModified = Some (UpLastModified resp)\<rparr>,
                   b\<lparr>container :=
                       uploaded (container b) (PutKey param) body contentType metadata resp\<rparr>)))"
  by pat_completeness auto
termination
  by (relation "measure (\<lambda>(pk, b, order, param). length (PutKey param))")
     (auto simp: HasSuffix_def)

declare PutBlob.simps [simp del]

subsection \<open>DeleteBlob, DeleteBlobs\<close>

text \<open>\<open>DeleteBlob\<close> (lines 636-652): the result of the call.\<close>

function DeleteBlob :: "pkg \<Rightarrow> AZBlob \<Rightarrow> string \<Rightarrow> unit result" where
  "DeleteBlob pk b key =
    (case refreshToken b of
       Some err \<Rightarrow> Err err
     | None \<Rightarrow>
        if HasSuffix key ''/'' then DeleteBlob pk b (take (length key - 1) key)
        else
          (case Delete (container b) key of
             Some err \<Rightarrow> Err (mapAZBError_nonnil (mapHttpError pk) err)
           | None \<Rightarrow> Ok ()))"
  by pat_completeness auto
termination
  by (relation "measure (\<lambda>(pk, b, key). length key)") (auto simp: HasSuffix_def)

declare DeleteBlob.simps [simp del]

text \<open>
  \<open>DeleteBlobs\<close> (lines 654-690) starts one goroutine for each key and shares the
  named result \<open>deleteError\<close> with them. The model is a transition system on
  configurations; every interleaving of the goroutines with the loop is a run.

  A goroutine (lines 667-682) has been started and has not yet called \<open>DeleteBlob\<close>
  (\<open>Started\<close>); holds the error of its call and has not yet run lines 676-681
  (\<open>Called\<close>); has run them and not yet its deferred function (\<open>Recorded\<close>); has
  received from \<open>SmallActionsGate\<close> and not yet called \<open>wg.Done()\<close> (\<open>Released\<close>);
  or is done (\<open>Finished\<close>). Each state carries the key of the goroutine.
\<close>

datatype goroutine =
  Started string | Called string "error option" | Recorded string | Released string
  | Finished string

fun key_of :: "goroutine \<Rightarrow> string" where
  "key_of (Started key) = key"
| "key_of (Called key err) = key"
| "key_of (Recorded key) = key"
| "key_of (Released key) = key"
| "key_of (Finished key) = key"

text \<open>
  The main routine is at the head of the loop (\<open>AtLoop\<close>, with the keys not yet
  visited), after the \<open>go\<close> statement and before the test of line 684
  (\<open>AfterGo\<close>), in the deferred function at \<open>wg.Wait()\<close> (\<open>Waiting\<close>), or has
  returned \<open>ret\<close> and \<open>deleteError\<close> (\<open>Returned\<close>).
\<close>

datatype main_routine =
  AtLoop "string list" | AfterGo "string list" | Waiting | Returned "unit option" "error option"

text \<open>
  A configuration: the main routine, the goroutines in the order of their \<open>go\<close>
  statements, the number of values in the channel \<open>SmallActionsGate\<close>, the counter
  of the wait group and the variable \<open>deleteError\<close>.
\<close>

record config =
  main :: main_routine
  routines :: "goroutine list"
  gate :: nat
  wg :: nat
  deleteError :: "error option"

definition initial :: "string list \<Rightarrow> config" where
  "initial items =
    \<lparr>main = AtLoop items, routines = [], gate = 0, wg = 0, deleteError = None\<rparr>"

text \<open>The error a call of \<open>DeleteBlob\<close> returns, \<open>nil\<close> on success.\<close>

definition error_of :: "unit result \<Rightarrow> error option" where
  "error_of r = (case r of Ok _ \<Rightarrow> None | Err e \<Rightarrow> Some e | Panic \<Rightarrow> None)"

text \<open>Lines 676-681: what a goroutine does with the error of its call.\<close>

definition record_error :: "pkg \<Rightarrow> error option \<Rightarrow> error option \<Rightarrow> error option" where
  "record_error pk err delErr =
    (case err of
       None \<Rightarrow> delErr
     | Some e \<Rightarrow>
        (let e = mapAZBError_nonnil (mapHttpError pk) e in
         if e \<noteq> Sys ENOENT then Some e else delErr))"

text \<open>
  The next step of the main routine, \<open>None\<close> when it cannot move. At the head of the
  loop with a key left, lines 664-682: the send to \<open>SmallActionsGate\<close> (a channel of
  capacity \<open>cap\<close>, declared in another file; the send waits while the channel is
  full), \<open>wg.Add(1)\<close> and the \<open>go\<close> statement. After the \<open>go\<close> statement, the test
  of line 684. With no key left, or after the \<open>return\<close> of line 685, the deferred
  function: \<open>wg.Wait()\<close> waits until the counter is 0, then \<open>ret\<close> is set and the
  call returns.
\<close>

definition main_step :: "nat \<Rightarrow> config \<Rightarrow> config option" where
  "main_step cap c =
    (case main c of
       AtLoop [] \<Rightarrow> Some (c\<lparr>main := Waiting\<rparr>)
     | AtLoop (key # keys) \<Rightarrow>
         if gate c < cap then
           Some (c\<lparr>main := AfterGo keys, routines := routines c @ [Started key],
                   gate := gate c + 1, wg := wg c + 1\<rparr>)
         else None
     | AfterGo keys \<Rightarrow>
         Some (c\<lparr>main := (if deleteError c \<noteq> None then Waiting else AtLoop keys)\<rparr>)
     | Waiting \<Rightarrow>
         if wg c = 0 then
           Some (c\<lparr>main := Returned (if deleteError c \<noteq> None then None else Some ())
                                     (deleteError c)\<rparr>)
         else None
     | Returned ret err \<Rightarrow> None)"

text \<open>
  The next step of goroutine \<open>i\<close>, \<open>None\<close> when it cannot move: the call of
  \<open>DeleteBlob\<close> (line 675), lines 676-681, the receive from \<open>SmallActionsGate\<close>
  (which waits while the channel is empty) and \<open>wg.Done()\<close>.
\<close>

definition routine_step :: "pkg \<Rightarrow> AZBlob \<Rightarrow> nat \<Rightarrow> config \<Rightarrow> config option" where
  "routine_step pk b i c =
    (case routines c ! i of
       Started key \<Rightarrow>
         Some (c\<lparr>routines := (routines c)[i := Called key (error_of (DeleteBlob pk b key))]\<rparr>)
     | Called key err \<Rightarrow>
         Some (c\<lparr>routines := (routines c)[i := Recorded key],
                 deleteError := record_error pk err (deleteError c)\<rparr>)
     | Recorded key \<Rightarrow>
         if 0 < gate c then
           Some (c\<lparr>routines := (routines c)[i := Released key], gate := gate c - 1\<rparr>)
         else None
     | Released key \<Rightarrow>
         Some (c\<lparr>routines := (routines c)[i := Finished key], wg := wg c - 1\<rparr>)
     | Finished key \<Rightarrow> None)"

text \<open>One step of the program: a step of the main routine or of one of the goroutines.\<close>

definition step :: "pkg \<Rightarrow> AZBlob \<Rightarrow> nat \<Rightarrow> config \<Rightarrow> config \<Rightarrow> bool" where
  "step pk b cap c c' =
    (main_step cap c = Some c'
     \<or> (\<exists>i < length (routines c). routine_step pk b i c = Some c'))"

text \<open>A run of \<open>DeleteBlobs\<close> on the keys, up to some configuration.\<close>

definition DeleteBlobs_run :: "pkg \<Rightarrow> AZBlob \<Rightarrow> nat \<Rightarrow> string list \<Rightarrow> config \<Rightarrow> bool" where
  "DeleteBlobs_run pk b cap items c = (step pk b cap)\<^sup>*\<^sup>* (initial items) c"

text \<open>
  The run of a schedule: \<open>None\<close> lets the main routine move, \<open>Some i\<close> goroutine
  \<open>i\<close>. The result is \<open>None\<close> when the schedule asks for a step that is not there.
\<close>

fun exec :: "pkg \<Rightarrow> AZBlob \<Rightarrow> nat \<Rightarrow> nat option list \<Rightarrow> config \<Rightarrow> config option" where
  "exec pk b cap [] c = Some c"
| "exec pk b cap (None # schedule) c =
    (case main_step cap c of
       None \<Rightarrow> None
     | Some c' \<Rightarrow> exec pk b cap schedule c')"
| "exec pk b cap (Some i # schedule) c =
    (if i < length (routines c) then
       (case routine_step pk b i c of
          None \<Rightarrow> None
        | Some c' \<Rightarrow> exec pk b cap schedule c')
     else None)"

subsection \<open>CopyBlob\<close>

record CopyBlobInput =
  CopySource :: string
  CopyDestination :: string
  CopyMetadata :: "string \<rightharpoonup> string option"

text \<open>What a call did besides its requests to start the copy: sleeps and polls.\<close>

datatype action = Sleep_ms nat | Poll string

text \<open>
  The loop of lines 720-725, from poll number \<open>n\<close>: the error of the poll that ended
  it (\<open>nil\<close> when the loop was left by \<open>break\<close>) and the number of polls made. The
  loop has no bound; \<open>None\<close> is a loop that never ends.
\<close>

partial_function (option) poll_loop ::
  "(nat \<Rightarrow> error + BlobGetPropertiesResponse) \<Rightarrow> string \<Rightarrow> nat \<Rightarrow> (error option \<times> nat) option" where
  "poll_loop polls copyID n =
    (case polls n of
       Inl err \<Rightarrow> Some (Some err, n + 1)
     | Inr cp \<Rightarrow>
        if CopyStatus cp \<noteq> CopyStatusPending \<or> CopyID cp \<noteq> copyID then Some (None, n + 1)
        else poll_loop polls copyID (n + 1))"

text \<open>The test of line 697: both keys end in a slash.\<close>

definition both_slash :: "CopyBlobInput \<Rightarrow> bool" where
  "both_slash param =
    (HasSuffix (CopySource param) ''/'' \<and> HasSuffix (CopyDestination param) ''/'')"

text \<open>
  \<open>CopyBlob\<close> (lines 696-732): the result and the actions after the start of the
  copy; \<open>None\<close> when the call never returns.
\<close>

function CopyBlob ::
  "pkg \<Rightarrow> AZBlob \<Rightarrow> string list \<Rightarrow> CopyBlobInput \<Rightarrow> (unit result \<times> action list) option" where
  "CopyBlob pk b order param =
    (if both_slash param then
       CopyBlob pk b order
         (param\<lparr>CopySource := take (length (CopySource param) - 1) (CopySource param),
                CopyDestination :=
                  take (length (CopyDestination param) - 1) (CopyDestination param)\<rparr>)
     else case refreshToken b of
       Some err \<Rightarrow> Some (Err err, [])
     | None \<Rightarrow>
        (case StartCopyFromURL (container b) (CopyDestination param) (CopySource param)
                (nilMetadata (ToLower pk) order (CopyMetadata param)) of
           Inl err \<Rightarrow> Some (Err (mapAZBError_nonnil (mapHttpError pk) err), [])
         | Inr (status, copyID) \<Rightarrow>
            if status = CopyStatusPending then
              (case poll_loop (PollProperties (container b) (CopyDestination param)) copyID 0 of
                 None \<Rightarrow> None
               | Some (err, n) \<Rightarrow>
                   (let actions = Sleep_ms 50 # replicate n (Poll (CopyDestination param)) in
                    case err of
                      Some e \<Rightarrow> Some (Err (mapAZBError_nonnil (mapHttpError pk) e), actions)
                    | None \<Rightarrow> Some (Ok (), actions)))
            else Some (Ok (), [])))"
  by pat_completeness auto
termination
  by (relation "measure (\<lambda>(pk, b, order, param). length (CopySource param))")
     (auto simp: HasSuffix_def both_slash_def)

declare CopyBlob.simps [simp del]

subsection \<open>Multipart uploads\<close>

text \<open>
  \<open>fmt.Sprintf\<close> of the Go library with one operand of type \<open>uint32\<close>, for formats
  whose only verb is \<open>%05d\<close>: the decimal digits of the operand, filled with zeros on
  the left to five characters. Text is copied; a second \<open>%05d\<close> finds no operand, and
  an operand no verb has used is reported at the end, as the library does. \<open>None\<close>
  is a format with another verb, which the model does not cover.
\<close>

definition digit_char :: "nat \<Rightarrow> char" where
  "digit_char d = ''0123456789'' ! d"

function dec :: "nat \<Rightarrow> string" where
  "dec n = (if n < 10 then [digit_char n] else dec (n div 10) @ [digit_char (n mod 10)])"
  by pat_completeness auto
termination
  by (relation "measure id") auto

declare dec.simps [simp del]

definition fmt_05d :: "nat \<Rightarrow> string" where
  "fmt_05d n = replicate (5 - length (dec n)) CHR ''0'' @ dec n"



text \<open>
  \<open>base64.StdEncoding.EncodeToString\<close> of the Go library: three bytes become four
  characters of the alphabet, six bits each; a rest of one or two bytes is filled
  with \<open>=\<close>.
\<close>

definition encodeStd :: string where
  "encodeStd = ''ABCDEFGHIJKLMNOPQRSTUVWXYZabcdefghijklmnopqrstuvwxyz0123456789+/''"

text \<open>The four characters for three bytes, given as numbers below 256.\<close>

definition quantum :: "nat \<Rightarrow> nat \<Rightarrow> nat \<Rightarrow> string" where
  "quantum x y z =
    [encodeStd ! (x div 4), encodeStd ! ((x mod 4) * 16 + y div 16),
     encodeStd ! ((y mod 16) * 4 + z div 64), encodeStd ! (z mod 64)]"

fun EncodeToString :: "string \<Rightarrow> string" where
  "EncodeToString (a # b # c # src) =
     quantum (of_char a) (of_char b) (of_char c) @ EncodeToString src"
| "EncodeToString [a, b] = take 3 (quantum (of_char a) (of_char b) 0) @ ''=''"
| "EncodeToString [a] = take 2 (quantum (of_char a) 0 0) @ ''==''"
| "EncodeToString [] = []"

record MultipartBlobCommitInput =
  CommitKey :: string
  CommitMetadata :: "string \<rightharpoonup> string option"
  UploadId :: string
  Parts :: "string option list"
  NumParts :: "32 word"





text \<open>
  Lines 910-914: the block ids of the first \<open>NumParts\<close> slots of \<open>Parts\<close>, in the
  order of the slots. \<open>None\<close> is the panic on a slot that is \<open>nil\<close> or beyond the
  slice.
\<close>

fun commit_parts :: "string option list \<Rightarrow> nat \<Rightarrow> string list option" where
  "commit_parts parts 0 = Some []"
| "commit_parts [] (Suc n) = None"
| "commit_parts (None # parts) (Suc n) = None"
| "commit_parts (Some p # parts) (Suc n) = map_option ((#) p) (commit_parts parts n)"

record MultipartBlobCommitOutput =
  CommitETag :: "string option"
  CommitLastModified :: "nat option"

text \<open>\<open>MultipartBlobCommit\<close> (lines 903-927).\<close>

definition MultipartBlobCommit ::
  "pkg \<Rightarrow> AZBlob \<Rightarrow> string list \<Rightarrow> MultipartBlobCommitInput \<Rightarrow> MultipartBlobCommitOutput result" where
  "MultipartBlobCommit pk b order param =
    (case refreshToken b of
       Some err \<Rightarrow> Err err
     | None \<Rightarrow>
        (case commit_parts (Parts param) (unat (NumParts param)) of
           None \<Rightarrow> Panic
         | Some parts \<Rightarrow>
            (case CommitBlockList (container b) (CommitKey param) parts
                    (nilMetadata (ToLower pk) order (CommitMetadata param)) of
               Inl err \<Rightarrow> Err (mapAZBError_nonnil (mapHttpError pk) err)
             | Inr resp \<Rightarrow>
                 Ok \<lparr>CommitETag = Some (UpETag resp),
                      CommitLastModified = Some (UpLastModified resp)\<rparr>)))"

subsection \<open>An example backend\<close>

text \<open>
  A container used to run the functions on concrete inputs: the directory blob \<open>a\<close>
  (with the metadata key \<open>hdi_isfolder\<close>), the blob \<open>a/x\<close> and the blob \<open>b\<close>.
  The package functions are the plain ones: \<open>mapHttpError\<close> knows the statuses 403
  and 404, \<open>PMetadata\<close> turns every value into a pointer. The keys of the examples
  are ASCII strings, so \<open>ToLower_ascii\<close> stands for \<open>strings.ToLower\<close>.
\<close>

definition ex_pkg :: pkg where
  "ex_pkg = \<lparr>mapHttpError = [403 \<mapsto> Sys EACCES, 404 \<mapsto> Sys ENOENT],
             PMetadata = (\<lambda>m k. map_option Some (m k)),
             ToLower = ToLower_ascii\<rparr>"

definition ex_props :: "(string \<rightharpoonup> string) \<Rightarrow> BlobGetPropertiesResponse" where
  "ex_props metadata =
    \<lparr>NewMetadata = metadata, RespETag = ''0x1'', RespLastModified = 0,
     RespContentLength = 0, RespAccessTier = ''Hot'', RespContentType = ''text/plain'',
     CopyStatus = CopyStatusNone, CopyID = []\<rparr>"

definition ex_blob :: "string \<Rightarrow> (string \<rightharpoonup> string) \<Rightarrow> BlobItemInternal" where
  "ex_blob name metadata =
    \<lparr>Name = name, Etag = ''0x1'', PropLastModified = 0, ContentLength = Some 0,
     AccessTier = ''Hot'', BlobMetadata = metadata\<rparr>"

definition ex_not_found :: error where
  "ex_not_found = Stg \<lparr>ServiceCode = ''BlobNotFound'', StatusCode = 404\<rparr>"

definition ex_segment :: "bool \<Rightarrow> string \<Rightarrow> ListBlobsSegmentResponse" where
  "ex_segment hierarchy prefix =
    (if prefix = [] then
       (if hierarchy then
          \<lparr>BlobPrefixes = [''a/''],
           BlobItems = [ex_blob ''a'' [''hdi_isfolder'' \<mapsto> ''true''], ex_blob ''b'' Map.empty],
           NextMarker = Some []\<rparr>
        else
          \<lparr>BlobPrefixes = [],
           BlobItems = [ex_blob ''a'' [''hdi_isfolder'' \<mapsto> ''true''], ex_blob ''a/x'' Map.empty,
                        ex_blob ''b'' Map.empty],
           NextMarker = Some []\<rparr>)
     else if prefix = ''a/'' then
       \<lparr>BlobPrefixes = [], BlobItems = [ex_blob ''a/x'' Map.empty], NextMarker = None\<rparr>
     else if prefix = ''b'' then
       \<lparr>BlobPrefixes = [], BlobItems = [ex_blob ''b'' Map.empty], NextMarker = None\<rparr>
     else \<lparr>BlobPrefixes = [], BlobItems = [], NextMarker = None\<rparr>)"

definition ex_service :: Service where
  "ex_service =
    \<lparr>GetProperties = (\<lambda>name.
        if name = ''a'' then Inr (ex_props [''hdi_isfolder'' \<mapsto> ''true''])
        else if name = ''a/x'' \<or> name = ''b'' then Inr (ex_props Map.empty)
        else Inl ex_not_found),
     ListBlobsHierarchySegment = (\<lambda>marker delimiter options. Inr (ex_segment True (OptPrefix options))),
     ListBlobsFlatSegment = (\<lambda>marker options. Inr (ex_segment False (OptPrefix options))),
     Download = (\<lambda>name offset count ifMatch.
        if name = ''b'' then
          Inr \<lparr>DlMetadata = [''mode'' \<mapsto> ''420''], DlETag = ''0x1'', DlLastModified = 0,
               DlContentLength = 5, DlContentType = ''text/plain'', DlBody = ''hello''\<rparr>
        else Inl ex_not_found),
     Upload = (\<lambda>name body contentType metadata. Inr \<lparr>UpETag = ''0x2'', UpLastModified = 1\<rparr>),
     Delete = (\<lambda>name. if name = ''a'' \<or> name = ''a/x'' \<or> name = ''b'' then None
                       else Some ex_not_found),
     StartCopyFromURL = (\<lambda>dest src metadata. Inr (CopyStatusPending, ''copy-1'')),
     PollProperties = (\<lambda>dest n.
        Inr ((ex_props Map.empty)
               \<lparr>CopyStatus := (if n < 2 then CopyStatusPending else CopyStatusSuccess),
                CopyID := ''copy-1''\<rparr>)),
     StageBlock = (\<lambda>name blockId body. None),
     StageBlockFromURL = (\<lambda>name blockId src offset sz. None),
     CommitBlockList = (\<lambda>name blockIds metadata. Inr \<lparr>UpETag = ''0x3'', UpLastModified = 2\<rparr>)\<rparr>"

definition ex_backend :: AZBlob where
  "ex_backend =
    \<lparr>Endpoint = ''https://account.blob.core.windows.net/'', refreshToken = None,
     sasTokenProvider_nil = True, signError = None, container = ex_service\<rparr>"

definition ex_list :: "string \<Rightarrow> string option \<Rightarrow> ListBlobsInput" where
  "ex_list prefix delimiter =
    \<lparr>Prefix = Some prefix, Delimiter = delimiter, MaxKeys = None,
     ContinuationToken = None, StartAfter = None\<rparr>"

subsection \<open>What the proofs assume of code outside the file\<close>

text \<open>
  \<open>PMetadata\<close> is declared in another file of the package. It converts a map of
  strings to a map of string pointers; all that is assumed of it is that every key of
  its result is a key of its argument, as it is or as \<open>strings.ToLower\<close> returns it.
\<close>

definition keys_kept :: "pkg \<Rightarrow> bool" where
  "keys_kept pk = (\<forall>m. dom (PMetadata pk m) \<subseteq> dom m \<union> ToLower pk ` dom m)"

text \<open>
  \<open>NewMetadata\<close> of the Azure SDK builds the metadata of a response from its HTTP
  headers and stores every key as \<open>strings.ToLower\<close> returns it. All that is assumed
  of the metadata of a response is that \<open>hdi_isfolder\<close> is its only key that
  \<open>strings.ToLower\<close> maps to \<open>hdi_isfolder\<close>.
\<close>

definition dir_key_only :: "pkg \<Rightarrow> AZBlob \<Rightarrow> bool" where
  "dir_key_only pk b =
    (\<forall>name resp. GetProperties (container b) name = Inr resp \<longrightarrow>
       (\<forall>k \<in> dom (NewMetadata resp).
          ToLower pk k = AzureDirBlobMetadataKey \<longrightarrow> k = AzureDirBlobMetadataKey))"

lemmas ex_defs = ex_pkg_def ex_backend_def ex_service_def ex_segment_def ex_blob_def
  ex_props_def ex_not_found_def ex_list_def

lemmas list_defs = ListBlobs_def list_segment_def list_request_def list_item_def
  is_dir_blob_def fill_dir_blob_def
  prefix_is_blob_def NilStr_def nilUint32_def HasSuffix_def AzureDirBlobMetadataKey_def
  sortBlobItemOutput_def sortBlobPrefixOutput_def AzuriteEndpoint_def Let_def

subsection \<open>Keys that end in slashes\<close>

text \<open>
  \<open>PutBlob\<close>, \<open>HeadBlob\<close> and \<open>DeleteBlob\<close> take one slash off the end of a key
  and call themselves again. A key that ends in a slash is \<open>k @ slashes (Suc n)\<close>
  for a \<open>k\<close> that does not end in a slash (lemma \<open>slash_decompose\<close>).
\<close>

definition slashes :: "nat \<Rightarrow> string" where
  "slashes n = replicate n CHR ''/''"

text \<open>
  \<open>strings.ToLower\<close> maps no key of the metadata other than \<open>hdi_isfolder\<close> itself
  to \<open>hdi_isfolder\<close>.
\<close>

definition no_case_variant :: "pkg \<Rightarrow> (string \<rightharpoonup> string option) \<Rightarrow> bool" where
  "no_case_variant pk md =
    (\<forall>k \<in> dom md. ToLower pk k = AzureDirBlobMetadataKey \<longrightarrow> k = AzureDirBlobMetadataKey)"

text \<open>A \<open>PutBlob\<close> of a directory blob without body.\<close>

definition ex_put :: "string \<Rightarrow> (string \<rightharpoonup> string option) \<Rightarrow> PutBlobInput" where
  "ex_put key metadata =
    \<lparr>PutKey = key, PutMetadata = metadata, DirBlob = True, PutBody = None,
     PutContentType = None\<rparr>"

lemmas put_defs = ex_put_def HasSuffix_def uploaded_def nilMetadata_def
  AzureDirBlobMetadataKey_def NilStr_def ToLower_ascii_def ascii_lower_def

text \<open>
  The example backend at a given endpoint, with a service whose flat listing answers
  with the given blobs.
\<close>

definition ex_flat :: "string \<Rightarrow> BlobItemInternal list \<Rightarrow> AZBlob" where
  "ex_flat endpoint blobs =
    ex_backend\<lparr>Endpoint := endpoint,
      container := ex_service\<lparr>ListBlobsFlatSegment := (\<lambda>marker options.
        Inr \<lparr>BlobPrefixes = [], BlobItems = blobs, NextMarker = None\<rparr>)\<rparr>\<rparr>"

subsection \<open>Notions used to state the properties of CopyBlob\<close>

text \<open>
  A poll that keeps the loop of lines 720-725 running: it did not fail, and the copy
  is still pending under the id of this call.
\<close>

definition still_pending :: "string \<Rightarrow> error + BlobGetPropertiesResponse \<Rightarrow> bool" where
  "still_pending copyID answer =
    (case answer of
       Inl err \<Rightarrow> False
     | Inr cp \<Rightarrow> CopyStatus cp = CopyStatusPending \<and> CopyID cp = copyID)"

text \<open>
  The input on which \<open>CopyBlob\<close> starts the copy: lines 697-701 take one slash off
  both keys as long as both end in one.
\<close>

function strip_both :: "CopyBlobInput \<Rightarrow> CopyBlobInput" where
  "strip_both param =
    (if both_slash param then
       strip_both
         (param\<lparr>CopySource := take (length (CopySource param) - 1) (CopySource param),
                CopyDestination :=
                  take (length (CopyDestination param) - 1) (CopyDestination param)\<rparr>)
     else param)"
  by pat_completeness auto
termination
  by (relation "measure (\<lambda>param. length (CopySource param))")
     (auto simp: HasSuffix_def both_slash_def)

declare strip_both.simps [simp del]

text \<open>
  The example backend with a copy that is pending at the first poll and whose second
  poll fails with the given error, and the copy of \<open>b\<close> to \<open>c\<close>.
\<close>

definition ex_poll_fails :: "error \<Rightarrow> AZBlob" where
  "ex_poll_fails err =
    ex_backend\<lparr>container := ex_service\<lparr>PollProperties := (\<lambda>dest n.
      if n = 0 then Inr ((ex_props Map.empty)\<lparr>CopyStatus := CopyStatusPending, CopyID := ''copy-1''\<rparr>)
      else Inl err)\<rparr>\<rparr>"

definition ex_copy :: CopyBlobInput where
  "ex_copy = \<lparr>CopySource = ''b'', CopyDestination = ''c'', CopyMetadata = Map.empty\<rparr>"

subsection \<open>Notions used to state the properties of the multipart uploads\<close>





subsection \<open>Notions used to state the properties of DeleteBlobs\<close>

text \<open>
  The error that the goroutine of a key writes to \<open>deleteError\<close>: what \<open>mapAZBError\<close>
  makes of the error of \<open>DeleteBlob\<close>, unless that is \<open>ENOENT\<close>; \<open>None\<close> when the
  goroutine writes nothing.
\<close>

definition failure :: "pkg \<Rightarrow> AZBlob \<Rightarrow> string \<Rightarrow> error option" where
  "failure pk b key = record_error pk (error_of (DeleteBlob pk b key)) None"

fun is_Finished :: "goroutine \<Rightarrow> bool" where
  "is_Finished (Finished key) = True"
| "is_Finished g = False"

text \<open>
  What a goroutine adds to the counter of the wait group and to the channel, whether
  it has run lines 676-681, and how many steps it has left.
\<close>

fun unfinished :: "goroutine \<Rightarrow> nat" where
  "unfinished (Finished key) = 0"
| "unfinished g = 1"

fun holding :: "goroutine \<Rightarrow> nat" where
  "holding (Started key) = 1"
| "holding (Called key err) = 1"
| "holding (Recorded key) = 1"
| "holding g = 0"

fun past_record :: "goroutine \<Rightarrow> bool" where
  "past_record (Recorded key) = True"
| "past_record (Released key) = True"
| "past_record (Finished key) = True"
| "past_record g = False"

fun steps_left :: "goroutine \<Rightarrow> nat" where
  "steps_left (Started key) = 4"
| "steps_left (Called key err) = 3"
| "steps_left (Recorded key) = 2"
| "steps_left (Released key) = 1"
| "steps_left (Finished key) = 0"

fun main_left :: "main_routine \<Rightarrow> nat" where
  "main_left (AtLoop keys) = 8 * length keys + 3"
| "main_left (AfterGo keys) = 8 * length keys + 4"
| "main_left Waiting = 1"
| "main_left (Returned ret err) = 0"

definition steps_bound :: "config \<Rightarrow> nat" where
  "steps_bound c = main_left (main c) + sum_list (map steps_left (routines c))"

text \<open>What holds of every configuration of a run on \<open>items\<close>.\<close>

definition run_invariant :: "pkg \<Rightarrow> AZBlob \<Rightarrow> string list \<Rightarrow> config \<Rightarrow> bool" where
  "run_invariant pk b items c =
    (wg c = sum_list (map unfinished (routines c))
     \<and> gate c = sum_list (map holding (routines c))
     \<and> (\<exists>rest. items = map key_of (routines c) @ rest
           \<and> (case main c of
                 AtLoop keys \<Rightarrow> rest = keys
               | AfterGo keys \<Rightarrow> rest = keys
               | Waiting \<Rightarrow> deleteError c \<noteq> None \<or> rest = []
               | Returned ret err \<Rightarrow> deleteError c \<noteq> None \<or> rest = []))
     \<and> (\<forall>e. deleteError c = Some e \<longrightarrow>
           (\<exists>i < length (routines c). past_record (routines c ! i)
               \<and> failure pk b (key_of (routines c ! i)) = Some e))
     \<and> (deleteError c = None \<longrightarrow>
           (\<forall>i < length (routines c). past_record (routines c ! i) \<longrightarrow>
               failure pk b (key_of (routines c ! i)) = None))
     \<and> (\<forall>i < length (routines c). \<forall>key err. routines c ! i = Called key err \<longrightarrow>
           err = error_of (DeleteBlob pk b key))
     \<and> (\<forall>ret err. main c = Returned ret err \<longrightarrow>
           wg c = 0 \<and> err = deleteError c \<and> ret = (if err \<noteq> None then None else Some ())))"

text \<open>
  A backend whose service refuses to delete \<open>k1\<close> (authentication failed) and \<open>k2\<close>
  (server busy).
\<close>

definition ex_two_fail :: AZBlob where
  "ex_two_fail =
    ex_backend\<lparr>container := ex_service\<lparr>Delete := (\<lambda>name.
      if name = ''k1'' then Some (Stg \<lparr>ServiceCode = ''AuthenticationFailed'', StatusCode = 403\<rparr>)
      else if name = ''k2'' then Some (Stg \<lparr>ServiceCode = ''ServerBusy'', StatusCode = 503\<rparr>)
      else None)\<rparr>\<rparr>"

section \<open>Properties\<close>

subsection \<open>The shape of a successful listing\<close>

lemma list_segment_items:
  "list_segment pk b param options = Inr (prefixes, items, blobItems, nextMarker) \<Longrightarrow> items = []"
  by (auto simp add: list_segment_def Let_def sortBlobItemOutput_def
      split: option.splits sum.splits if_splits)

lemma list_segment_request:
  assumes "list_segment pk b param options = Inr (prefixes, items, blobItems, nextMarker)"
  obtains resp where "list_request b param options = Inr resp"
    and "blobItems = BlobItems resp" and "nextMarker = NextMarker resp"
    and "Delimiter param = None \<longrightarrow> prefixes = []"
    and "Delimiter param \<noteq> None \<longrightarrow>
         prefixes = (if Endpoint b = AzuriteEndpoint \<and> \<not> sorted (BlobPrefixes resp)
                     then sortBlobPrefixOutput (BlobPrefixes resp) else BlobPrefixes resp)"
  using assms
  by (cases "Delimiter param"; cases "list_request b param options")
     (auto simp add: list_segment_def Let_def)

text \<open>
  A listing that succeeds is the empty output of line 557, or went through the
  request, the loop and the look-up of the directory blob.
\<close>

lemma ListBlobs_Ok_cases:
  assumes ok: "ListBlobs pk b param = Ok out"
  obtains (early) "out = \<lparr>Prefixes = [], Items = [], NextContinuationToken = None, IsTruncated = False\<rparr>"
  | (full) prefixes blobItems nextMarker ps items s items' s' where
      "StartAfter param = None" and "refreshToken b = None"
      and "list_segment pk b param
             \<lparr>OptPrefix = NilStr (Prefix param), MaxResults = nilUint32 (MaxKeys param)\<rparr>
           = Inr (prefixes, [], blobItems, nextMarker)"
      and "\<not> prefix_is_blob blobItems (NilStr (Prefix param))"
      and "list_loop pk (Delimiter param \<noteq> None) blobItems (prefixes, [], False) = Some (ps, items, s)"
      and "fill_dir_blob pk b (NilStr (Prefix param)) (items, s) = Ok (items', s')"
      and "out = \<lparr>Prefixes = ps,
                  Items = (if s' then sortBlobItemOutput items' else items'),
                  NextContinuationToken = (if nextMarker = Some [] then None else nextMarker),
                  IsTruncated = ((if nextMarker = Some [] then None else nextMarker) \<noteq> None)\<rparr>"
proof -
  let ?options = "\<lparr>OptPrefix = NilStr (Prefix param), MaxResults = nilUint32 (MaxKeys param)\<rparr>"
  from ok have sa: "StartAfter param = None"
    by (simp add: ListBlobs_def split: if_splits)
  from ok sa have rt: "refreshToken b = None"
    by (cases "refreshToken b") (simp_all add: ListBlobs_def)
  from ok sa rt obtain prefixes items0 blobItems nextMarker where
    seg0: "list_segment pk b param ?options = Inr (prefixes, items0, blobItems, nextMarker)"
    by (cases "list_segment pk b param ?options") (auto simp add: ListBlobs_def)
  from list_segment_items [OF seg0] seg0
  have seg: "list_segment pk b param ?options = Inr (prefixes, [], blobItems, nextMarker)" by simp
  show thesis
  proof (cases "prefix_is_blob blobItems (NilStr (Prefix param))")
    case True
    with ok sa rt seg
    have "out = \<lparr>Prefixes = [], Items = [], NextContinuationToken = None, IsTruncated = False\<rparr>"
      by (simp add: ListBlobs_def)
    then show thesis by (rule early)
  next
    case False
    let ?loop = "list_loop pk (Delimiter param \<noteq> None) blobItems (prefixes, [], False)"
    obtain ps items s where lp: "?loop = Some (ps, items, s)"
    proof (cases ?loop)
      case None
      with ok sa rt seg False show thesis by (simp add: ListBlobs_def)
    next
      case (Some t)
      with that show thesis by (cases t) auto
    qed
    let ?fill = "fill_dir_blob pk b (NilStr (Prefix param)) (items, s)"
    obtain items' s' where fd: "?fill = Ok (items', s')"
    proof (cases ?fill)
      case (Ok t)
      with that show thesis by (cases t) auto
    next
      case (Err e)
      with ok sa rt seg False lp show thesis by (simp add: ListBlobs_def)
    next
      case Panic
      with ok sa rt seg False lp show thesis by (simp add: ListBlobs_def)
    qed
    from ok sa rt seg False lp fd have "out = \<lparr>Prefixes = ps,
                  Items = (if s' then sortBlobItemOutput items' else items'),
                  NextContinuationToken = (if nextMarker = Some [] then None else nextMarker),
                  IsTruncated = ((if nextMarker = Some [] then None else nextMarker) \<noteq> None)\<rparr>"
      by (simp add: ListBlobs_def Let_def split: if_splits)
    with sa rt seg False lp fd show thesis by (rule full)
  qed
qed



subsection \<open>Error mapping\<close>

text \<open>
  C4 (as amended). \<open>mapAZBError\<close> maps \<open>nil\<close> to \<open>nil\<close>; blob-not-found and
  resource-not-found to \<open>ENOENT\<close>; authentication failed, invalid authentication
  info and Azurite's authorization failure to \<open>EACCES\<close>; server busy, operation
  timed out, internal error, container being deleted and system in use to
  \<open>EAGAIN\<close>; every service code with a case in the switch to an errno. A storage
  error with any other service code is mapped by \<open>mapHttpError\<close> on its HTTP status,
  and is returned as it is when \<open>mapHttpError\<close> gives \<open>nil\<close>; an error that is no
  storage error is returned as it is.
\<close>

theorem mapAZBError_cases:
  "mapAZBError mh None = None
   \<and> mapAZBError mh (stg ServiceCodeBlobNotFound s) = Some (Sys ENOENT)
   \<and> mapAZBError mh (stg ServiceCodeResourceNotFound s) = Some (Sys ENOENT)
   \<and> mapAZBError mh (stg ServiceCodeAuthenticationFailed s) = Some (Sys EACCES)
   \<and> mapAZBError mh (stg ServiceCodeInvalidAuthenticationInfo s) = Some (Sys EACCES)
   \<and> mapAZBError mh (stg ''AuthorizationFailure'' s) = Some (Sys EACCES)
   \<and> mapAZBError mh (stg ServiceCodeServerBusy s) = Some (Sys EAGAIN)
   \<and> mapAZBError mh (stg ServiceCodeOperationTimedOut s) = Some (Sys EAGAIN)
   \<and> mapAZBError mh (stg ServiceCodeInternalError s) = Some (Sys EAGAIN)
   \<and> mapAZBError mh (stg ServiceCodeContainerBeingDeleted s) = Some (Sys EAGAIN)
   \<and> mapAZBError mh (stg ServiceCodeSystemInUse s) = Some (Sys EAGAIN)
   \<and> (ServiceCode e \<in> set switch_codes \<longrightarrow>
        (\<exists>n. mapAZBError mh (Some (Stg e)) = Some (Sys n)))
   \<and> (ServiceCode e \<notin> set switch_codes \<longrightarrow>
        mapAZBError mh (Some (Stg e)) =
          (case mh (StatusCode e) of Some x \<Rightarrow> Some x | None \<Rightarrow> Some (Stg e)))
   \<and> mapAZBError mh (Some (Sys n)) = Some (Sys n)
   \<and> mapAZBError mh (Some (Other t)) = Some (Other t)"
proof -
  have listed: "ServiceCode e \<in> set switch_codes \<Longrightarrow>
      \<exists>n. mapAZBError mh (Some (Stg e)) = Some (Sys n)"
    by (auto simp add: mapAZBError_def mapAZBError_nonnil_def switch_codes_def ServiceCode_defs)
  have unlisted: "ServiceCode e \<notin> set switch_codes \<Longrightarrow>
      mapAZBError mh (Some (Stg e)) =
        (case mh (StatusCode e) of Some x \<Rightarrow> Some x | None \<Rightarrow> Some (Stg e))"
    by (simp add: mapAZBError_def mapAZBError_nonnil_def switch_codes_def split: option.splits)
  show ?thesis
    using listed unlisted
    by (simp add: mapAZBError_def mapAZBError_nonnil_def stg_def ServiceCode_defs)
qed

theorem mapAZBError_cases_witness:
  "mapAZBError Map.empty (Some (Stg \<lparr>ServiceCode = ''LeaseLost'', StatusCode = 412\<rparr>))
     = Some (Stg \<lparr>ServiceCode = ''LeaseLost'', StatusCode = 412\<rparr>)
   \<and> (\<exists>n. mapAZBError Map.empty (Some (Stg \<lparr>ServiceCode = ''ServerBusy'', StatusCode = 503\<rparr>))
          = Some (Sys n))"
  using mapAZBError_cases [of Map.empty 0 "\<lparr>ServiceCode = ''LeaseLost'', StatusCode = 412\<rparr>"]
    mapAZBError_cases [of Map.empty 0 "\<lparr>ServiceCode = ''ServerBusy'', StatusCode = 503\<rparr>"]
  by (simp add: switch_codes_def ServiceCode_defs)

text \<open>
  C4 as stated fails: not every storage error becomes an errno. For a service code
  without a case in the switch, on a status for which \<open>mapHttpError\<close> returns \<open>nil\<close>
  (the branch of lines 402-405), the storage error itself is returned.
\<close>

theorem mapAZBError_not_always_errno:
  "mapAZBError Map.empty (stg ''LeaseLost'' 412) = stg ''LeaseLost'' 412"
  by (simp add: mapAZBError_def mapAZBError_nonnil_def stg_def ServiceCode_defs)

subsection \<open>RenameBlob\<close>

text \<open>
  C8. For every input and every state of the backend, \<open>RenameBlob\<close> returns
  \<open>ENOTSUP\<close> and leaves the backend object, with its container, as it was: the
  result does not depend on the service, and no request changes it.
\<close>

theorem RenameBlob_not_supported:
  "fst (RenameBlob b param) = Err (Sys ENOTSUP) \<and> snd (RenameBlob b param) = b"
  by (simp add: RenameBlob_def)

lemma list_item_cases:
  assumes "list_item pk d i (ps, items, s) = Some (ps', items', s')"
  obtains (dir) "d" and "is_dir_blob i" and "ps' = insert_prefix ps (Name i @ ''/'')"
      and "items' = items" and "s' = s"
  | (item) it where "ps' = ps" and "items' = items @ [it]"
      and "Metadata it = (PMetadata pk (BlobMetadata i))(AzureDirBlobMetadataKey := None)"
      and "Key it = Name i \<or> (Key it = Name i @ ''/'' \<and> s' \<and> \<not> d)"
      and "Key it = Name i \<longrightarrow> s' = s"
      and "\<not> is_dir_blob i \<or> \<not> d"
      and "is_dir_blob i \<longrightarrow> Key it = Name i @ ''/'' \<and> s'"
      and "\<not> is_dir_blob i \<longrightarrow> Key it = Name i \<and> s' = s"
  using assms
  by (auto simp add: list_item_def Let_def split: if_splits option.splits)

lemma list_loop_Cons:
  assumes "list_loop pk d (i # blobs) (ps, items, s) = Some (ps', items', s')"
  obtains ps1 items1 s1 where "list_item pk d i (ps, items, s) = Some (ps1, items1, s1)"
    and "list_loop pk d blobs (ps1, items1, s1) = Some (ps', items', s')"
  using assms by (auto split: option.splits)

subsection \<open>The continuation token of a listing\<close>

text \<open>
  C10. For every successful output of \<open>ListBlobs\<close>, \<open>IsTruncated\<close> holds if and
  only if \<open>NextContinuationToken\<close> is not \<open>nil\<close>, and the token is never the empty
  string.
\<close>

theorem ListBlobs_truncated_iff_token:
  assumes "ListBlobs pk b param = Ok out"
  shows "IsTruncated out = (NextContinuationToken out \<noteq> None)
         \<and> NextContinuationToken out \<noteq> Some []"
  using assms by (cases rule: ListBlobs_Ok_cases) auto

text \<open>
  The flat listing of the example container: the service sends an empty marker, the
  output has no token.
\<close>

theorem ListBlobs_truncated_iff_token_witness:
  "\<exists>out. ListBlobs ex_pkg ex_backend (ex_list [] None) = Ok out
     \<and> IsTruncated out = (NextContinuationToken out \<noteq> None)
     \<and> NextContinuationToken out \<noteq> Some []"
proof -
  have "\<exists>out. ListBlobs ex_pkg ex_backend (ex_list [] None) = Ok out"
    by (simp add: list_defs ex_defs)
  then obtain out where ok: "ListBlobs ex_pkg ex_backend (ex_list [] None) = Ok out" ..
  from ListBlobs_truncated_iff_token [OF ok] ok show ?thesis by blast
qed

subsection \<open>Metadata\<close>

lemma ascii_lower_adds_32:
  "of_char (ascii_lower c) =
    (if CHR ''A'' \<le> c \<and> c \<le> CHR ''Z'' then of_char c + (32::nat) else of_char c)"
  by (cases c) (auto simp add: ascii_lower_def less_eq_char_def)

lemma ascii_lower_idem: "ascii_lower (ascii_lower c) = ascii_lower c"
  by (cases c) (auto simp add: ascii_lower_def less_eq_char_def)

lemma ToLower_ascii_idem: "ToLower_ascii (ToLower_ascii s) = ToLower_ascii s"
  by (simp add: ToLower_ascii_def ascii_lower_idem)

lemma nilMetadata_fold_dom:
  "dom (fold (\<lambda>k metadata. case m k of None \<Rightarrow> metadata
                | Some v \<Rightarrow> metadata(lower k \<mapsto> NilStr v)) order acc)
   \<subseteq> dom acc \<union> lower ` {k \<in> set order. m k \<noteq> None}"
proof (induction order arbitrary: acc)
  case Nil
  then show ?case by simp
next
  case (Cons k order)
  show ?case
    using Cons.IH [of "case m k of None \<Rightarrow> acc | Some v \<Rightarrow> acc(lower k \<mapsto> NilStr v)"]
    by (auto split: option.splits)
qed

lemma nilMetadata_dom:
  "dom (nilMetadata lower order m) \<subseteq> lower ` {k \<in> set order. m k \<noteq> None}"
  using nilMetadata_fold_dom [where m = m and lower = lower and acc = Map.empty] by (simp add: nilMetadata_def)

lemma nilMetadata_keys_lower:
  assumes "k \<in> dom (nilMetadata lower order m)"
  shows "\<exists>k0. k0 \<in> set order \<and> m k0 \<noteq> None \<and> k = lower k0"
  using nilMetadata_dom [of lower order m] assms by blast

lemma PMetadata_hides:
  assumes "keys_kept pk"
    and "\<forall>k \<in> dom m. ToLower pk k = AzureDirBlobMetadataKey \<longrightarrow> k = AzureDirBlobMetadataKey"
  shows "AzureDirBlobMetadataKey \<notin> dom (PMetadata pk (m(AzureDirBlobMetadataKey := None)))"
proof
  let ?m = "m(AzureDirBlobMetadataKey := None)"
  assume "AzureDirBlobMetadataKey \<in> dom (PMetadata pk ?m)"
  with assms(1) have "AzureDirBlobMetadataKey \<in> dom ?m \<union> ToLower pk ` dom ?m"
    unfolding keys_kept_def by blast
  then obtain k where k: "k \<in> dom ?m" "AzureDirBlobMetadataKey = ToLower pk k" by auto
  from k(1) have "k \<in> dom m" and "k \<noteq> AzureDirBlobMetadataKey" by (auto split: if_splits)
  with assms(2) k(2) show False by auto
qed

lemma HeadBlob_hides:
  "keys_kept pk \<Longrightarrow> dir_key_only pk b \<Longrightarrow> HeadBlob pk b key = (Some h, e) \<Longrightarrow>
   AzureDirBlobMetadataKey \<notin> dom (Metadata h)"
proof (induction pk b key arbitrary: h e rule: HeadBlob.induct)
  case (1 pk b key)
  note run = \<open>HeadBlob pk b key = (Some h, e)\<close>
  show ?case
  proof (cases "refreshToken b")
    case (Some err)
    with run show ?thesis by (simp add: HeadBlob.simps [of pk b key])
  next
    case None
    show ?thesis
    proof (cases "HasSuffix key ''/''")
      case True
      obtain d r where inner: "HeadBlob pk b (take (length key - 1) key) = (d, r)"
        by (cases "HeadBlob pk b (take (length key - 1) key)")
      with run None True have "d = Some h"
        by (auto simp add: HeadBlob.simps [of pk b key] split: option.splits if_splits)
      with inner "1.IH" [OF None True "1.prems"(1,2)] show ?thesis by simp
    next
      case False
      show ?thesis
      proof (cases "GetProperties (container b) key")
        case (Inl err)
        with run None False show ?thesis by (simp add: HeadBlob.simps [of pk b key])
      next
        case (Inr resp)
        with "1.prems"(2) have "\<forall>k \<in> dom (NewMetadata resp).
            ToLower pk k = AzureDirBlobMetadataKey \<longrightarrow> k = AzureDirBlobMetadataKey"
          unfolding dir_key_only_def by blast
        from PMetadata_hides [OF "1.prems"(1) this] run None False Inr show ?thesis
          by (auto simp add: HeadBlob.simps [of pk b key] Let_def)
      qed
    qed
  qed
qed

lemma list_loop_hides:
  "list_loop pk d blobs (ps, items, s) = Some (ps', items', s') \<Longrightarrow>
   \<forall>it \<in> set items. AzureDirBlobMetadataKey \<notin> dom (Metadata it) \<Longrightarrow>
   \<forall>it \<in> set items'. AzureDirBlobMetadataKey \<notin> dom (Metadata it)"
proof (induction blobs arbitrary: ps items s)
  case Nil
  then show ?case by simp
next
  case (Cons i blobs)
  from Cons.prems(1) obtain ps1 items1 s1 where
    st: "list_item pk d i (ps, items, s) = Some (ps1, items1, s1)"
    and rest: "list_loop pk d blobs (ps1, items1, s1) = Some (ps', items', s')"
    by (rule list_loop_Cons)
  from st Cons.prems(2) have "\<forall>it \<in> set items1. AzureDirBlobMetadataKey \<notin> dom (Metadata it)"
    by (cases rule: list_item_cases) auto
  from Cons.IH [OF rest this] show ?case .
qed

lemma fill_dir_blob_hides:
  assumes "keys_kept pk" and "dir_key_only pk b"
    and "fill_dir_blob pk b prefix (items, s) = Ok (items', s')"
    and "\<forall>it \<in> set items. AzureDirBlobMetadataKey \<notin> dom (Metadata it)"
  shows "\<forall>it \<in> set items'. AzureDirBlobMetadataKey \<notin> dom (Metadata it)"
proof (cases "HasSuffix prefix ''/''")
  case False
  with assms(3,4) show ?thesis by (simp add: fill_dir_blob_def)
next
  case True
  obtain d r where head: "HeadBlob pk b prefix = (d, r)" by (cases "HeadBlob pk b prefix")
  show ?thesis
  proof (cases r)
    case (Some err)
    with assms(3,4) True head show ?thesis
      by (auto simp add: fill_dir_blob_def split: option.splits if_splits)
  next
    case None
    with assms(3) True head obtain dirBlob where d: "d = Some dirBlob"
      and items': "items' = items @ [BlobItemOutput.truncate (dirBlob\<lparr>Key := Key dirBlob @ ''/''\<rparr>)]"
      by (auto simp add: fill_dir_blob_def split: option.splits)
    from HeadBlob_hides [OF assms(1,2)] head d None
    have "AzureDirBlobMetadataKey \<notin> dom (Metadata dirBlob)" by simp
    with items' assms(4) show ?thesis
      by (auto simp add: BlobItemOutput.truncate_def)
  qed
qed

lemma ListBlobs_hides:
  assumes "keys_kept pk" and "dir_key_only pk b" and "ListBlobs pk b param = Ok out"
  shows "\<forall>it \<in> set (Items out). AzureDirBlobMetadataKey \<notin> dom (Metadata it)"
  using assms(3)
proof (cases rule: ListBlobs_Ok_cases)
  case early
  then show ?thesis by simp
next
  case (full prefixes blobItems nextMarker ps items s items' s')
  from list_loop_hides [OF full(5)]
  have "\<forall>it \<in> set items. AzureDirBlobMetadataKey \<notin> dom (Metadata it)" by simp
  from fill_dir_blob_hides [OF assms(1,2) full(6) this] full(7) show ?thesis
    by (simp add: sortBlobItemOutput_def)
qed

lemma GetBlob_hides:
  "GetBlob pk b param = Ok out \<Longrightarrow> AzureDirBlobMetadataKey \<notin> dom (Metadata out)"
  by (auto simp add: GetBlob_def Let_def split: option.splits sum.splits)

text \<open>
  C7. The metadata that \<open>HeadBlob\<close>, \<open>GetBlob\<close> and \<open>ListBlobs\<close> return never has
  the key \<open>hdi_isfolder\<close>, and every key of a map that \<open>nilMetadata\<close> builds for Azure
  is lower-cased: it is what \<open>strings.ToLower\<close> returns for a key of the given map (so
  it is in lower case, \<open>strings.ToLower\<close> leaves it as it is, whenever
  \<open>strings.ToLower\<close> leaves its own results as they are). \<open>HeadBlob\<close> deletes
  \<open>hdi_isfolder\<close> before it calls \<open>PMetadata\<close>, so for it (and for the directory blob
  that \<open>ListBlobs\<close> appends) the statement rests on \<open>keys_kept\<close> and
  \<open>dir_key_only\<close>; \<open>GetBlob\<close> and the loop of \<open>ListBlobs\<close> delete the key after
  \<open>PMetadata\<close>.
\<close>

theorem metadata_key_hidden_and_keys_lowered:
  assumes "keys_kept pk" and "dir_key_only pk b"
  shows "(\<forall>h e. HeadBlob pk b key = (Some h, e) \<longrightarrow> AzureDirBlobMetadataKey \<notin> dom (Metadata h))
    \<and> (\<forall>out. GetBlob pk b gparam = Ok out \<longrightarrow> AzureDirBlobMetadataKey \<notin> dom (Metadata out))
    \<and> (\<forall>out. ListBlobs pk b lparam = Ok out \<longrightarrow>
          (\<forall>it \<in> set (Items out). AzureDirBlobMetadataKey \<notin> dom (Metadata it)))
    \<and> (\<forall>k \<in> dom (nilMetadata (ToLower pk) order m).
          \<exists>k0. k0 \<in> set order \<and> m k0 \<noteq> None \<and> k = ToLower pk k0)
    \<and> ((\<forall>s. ToLower pk (ToLower pk s) = ToLower pk s) \<longrightarrow>
          (\<forall>k \<in> dom (nilMetadata (ToLower pk) order m). ToLower pk k = k))"
proof -
  have keys: "\<exists>k0. k0 \<in> set order \<and> m k0 \<noteq> None \<and> k = ToLower pk k0"
    if "k \<in> dom (nilMetadata (ToLower pk) order m)" for k
    using that by (rule nilMetadata_keys_lower)
  have fixed: "ToLower pk k = k"
    if "\<forall>s. ToLower pk (ToLower pk s) = ToLower pk s"
      and "k \<in> dom (nilMetadata (ToLower pk) order m)" for k
    using keys [OF that(2)] that(1) by auto
  from HeadBlob_hides [OF assms] GetBlob_hides ListBlobs_hides [OF assms] keys fixed
  show ?thesis by blast
qed


lemma ex_keys_kept: "keys_kept ex_pkg"
  by (auto simp add: keys_kept_def ex_pkg_def)

lemma ex_dir_key_only: "dir_key_only ex_pkg ex_backend"
  by (auto simp add: dir_key_only_def ex_defs AzureDirBlobMetadataKey_def split: if_splits)

lemma ex_ToLower_idem: "\<forall>s. ToLower ex_pkg (ToLower ex_pkg s) = ToLower ex_pkg s"
  by (simp add: ex_pkg_def ToLower_ascii_idem)

lemma ex_head_a: "\<exists>h. HeadBlob ex_pkg ex_backend ''a/'' = (Some h, None) \<and> IsDirBlob h"
  by (simp add: HeadBlob.simps [of _ _ "''a/''"] HeadBlob.simps [of _ _ "''a''"]
      HasSuffix_def AzureDirBlobMetadataKey_def ex_defs)

text \<open>
  The example container: the directory blob \<open>a\<close>, the blob \<open>b\<close>, the listing
  under \<open>a/\<close> (which appends the directory blob), and a map with a key in
  upper case.
\<close>

theorem metadata_key_hidden_and_keys_lowered_witness:
  "keys_kept ex_pkg \<and> dir_key_only ex_pkg ex_backend
   \<and> (\<exists>h. HeadBlob ex_pkg ex_backend ''a/'' = (Some h, None)
          \<and> AzureDirBlobMetadataKey \<notin> dom (Metadata h))
   \<and> (\<exists>out. GetBlob ex_pkg ex_backend
                \<lparr>GetKey = ''b'', Start = 0, Count = 0, IfMatch = None\<rparr> = Ok out
          \<and> AzureDirBlobMetadataKey \<notin> dom (Metadata out))
   \<and> (\<exists>out. ListBlobs ex_pkg ex_backend (ex_list ''a/'' (Some ''/'')) = Ok out
          \<and> (\<forall>it \<in> set (Items out). AzureDirBlobMetadataKey \<notin> dom (Metadata it)))
   \<and> dom (nilMetadata (ToLower ex_pkg) [''Mode'', ''hdi_isfolder'']
             [''Mode'' \<mapsto> Some ''420'', ''hdi_isfolder'' \<mapsto> Some ''true''])
       = {''mode'', ''hdi_isfolder''}
   \<and> (\<exists>k0. (k0 = ''Mode'' \<or> k0 = ''hdi_isfolder'') \<and> ''mode'' = ToLower ex_pkg k0)
   \<and> ToLower ex_pkg ''mode'' = ''mode''"
proof -
  define ks where "ks = [''Mode'', ''hdi_isfolder'']"
  define md where "md = [''Mode'' \<mapsto> Some ''420'', ''hdi_isfolder'' \<mapsto> Some ''true'']"
  define m where "m = nilMetadata (ToLower ex_pkg) ks md"
  define k where "k = ''mode''"
  have dom_m: "dom m = {''mode'', ''hdi_isfolder''}"
    by (auto simp add: m_def ks_def md_def nilMetadata_def ex_pkg_def ToLower_ascii_def
        ascii_lower_def NilStr_def split: if_splits)
  then have dom: "k \<in> dom m" by (simp add: k_def)
  have head: "\<exists>h. HeadBlob ex_pkg ex_backend ''a/'' = (Some h, None)"
    using ex_head_a by blast
  have get: "\<exists>out. GetBlob ex_pkg ex_backend
                \<lparr>GetKey = ''b'', Start = 0, Count = 0, IfMatch = None\<rparr> = Ok out"
    by (simp add: GetBlob_def ex_defs)
  have list: "\<exists>out. ListBlobs ex_pkg ex_backend (ex_list ''a/'' (Some ''/'')) = Ok out"
    by (simp add: list_defs ex_defs HeadBlob.simps [of _ _ "''a/''"] HeadBlob.simps [of _ _ "''a''"]
        BlobItemOutput.truncate_def)
  note main = metadata_key_hidden_and_keys_lowered [OF ex_keys_kept ex_dir_key_only,
      where m = md and order = ks]
  from main dom have "\<exists>k0. k0 \<in> set ks \<and> md k0 \<noteq> None \<and> k = ToLower ex_pkg k0"
    unfolding m_def by blast
  then have from_key: "\<exists>k0. (k0 = ''Mode'' \<or> k0 = ''hdi_isfolder'') \<and> k = ToLower ex_pkg k0"
    unfolding ks_def by auto
  from main ex_ToLower_idem dom have fixed: "ToLower ex_pkg k = k"
    unfolding m_def by blast
  from main head have c1: "\<exists>h. HeadBlob ex_pkg ex_backend ''a/'' = (Some h, None)
          \<and> AzureDirBlobMetadataKey \<notin> dom (Metadata h)" by blast
  from main get have c2: "\<exists>out. GetBlob ex_pkg ex_backend
                \<lparr>GetKey = ''b'', Start = 0, Count = 0, IfMatch = None\<rparr> = Ok out
          \<and> AzureDirBlobMetadataKey \<notin> dom (Metadata out)" by blast
  from main list have c3: "\<exists>out. ListBlobs ex_pkg ex_backend (ex_list ''a/'' (Some ''/'')) = Ok out
          \<and> (\<forall>it \<in> set (Items out). AzureDirBlobMetadataKey \<notin> dom (Metadata it))" by blast
  from ex_keys_kept ex_dir_key_only c1 c2 c3 dom_m from_key fixed
  show ?thesis unfolding m_def k_def ks_def md_def by (intro conjI)
qed


subsection \<open>Directory blobs\<close>

lemma slashes_Suc: "slashes (Suc n) = slashes n @ ''/''"
  by (simp add: slashes_def replicate_append_same)

lemma HasSuffix_slashes: "HasSuffix (k @ slashes (Suc n)) ''/''"
  by (simp add: HasSuffix_def slashes_Suc)

lemma take_slashes: "take (length (k @ slashes (Suc n)) - 1) (k @ slashes (Suc n)) = k @ slashes n"
  by (simp add: slashes_Suc)

lemma HeadBlob_leaf:
  assumes "refreshToken b = None" and "\<not> HasSuffix k ''/''"
  shows "HeadBlob pk b k =
    (case GetProperties (container b) k of
       Inl err \<Rightarrow> (None, Some (mapAZBError_nonnil (mapHttpError pk) err))
     | Inr resp \<Rightarrow>
         (Some \<lparr>Key = k, ETag = Some (RespETag resp),
                LastModified = Some (RespLastModified resp),
                Size = RespContentLength resp,
                StorageClass = Some (RespAccessTier resp),
                Metadata = PMetadata pk ((NewMetadata resp)(AzureDirBlobMetadataKey := None)),
                ContentType = Some (RespContentType resp),
                IsDirBlob = (NewMetadata resp AzureDirBlobMetadataKey \<noteq> None)\<rparr>, None))"
  using assms by (simp add: HeadBlob.simps [of pk b k] Let_def split: sum.splits)

lemma HeadBlob_slash:
  assumes "refreshToken b = None"
  shows "HeadBlob pk b (k @ slashes (Suc n)) =
    (case HeadBlob pk b (k @ slashes n) of
       (Some dirBlob, None) \<Rightarrow>
         if \<not> IsDirBlob dirBlob then (Some dirBlob, Some (Sys ENOENT)) else (Some dirBlob, None)
     | (dirBlob, err) \<Rightarrow> (dirBlob, err))"
  using assms HasSuffix_slashes [of k n] take_slashes [of k n]
  by (simp add: HeadBlob.simps [of pk b "k @ slashes (Suc n)"])

lemma HeadBlob_dir_slashes:
  assumes "refreshToken b = None" and "HeadBlob pk b k = (Some h, None)" and "IsDirBlob h"
  shows "HeadBlob pk b (k @ slashes n) = (Some h, None)"
proof (induction n)
  case 0
  with assms show ?case by (simp add: slashes_def)
next
  case (Suc n)
  with assms show ?case by (simp add: HeadBlob_slash)
qed

lemma HeadBlob_file_slashes:
  assumes "refreshToken b = None" and "HeadBlob pk b k = (Some h, None)" and "\<not> IsDirBlob h"
  shows "HeadBlob pk b (k @ slashes (Suc n)) = (Some h, Some (Sys ENOENT))"
proof (induction n)
  case 0
  from assms HeadBlob_slash [OF assms(1), of pk k 0] show ?case by (simp add: slashes_def)
next
  case (Suc n)
  with assms HeadBlob_slash [OF assms(1), of pk k "Suc n"] show ?case by simp
qed

lemma PutBlob_leaf:
  assumes "refreshToken b = None" and "\<not> (DirBlob param \<and> HasSuffix (PutKey param) ''/'')"
  shows "PutBlob pk b order param =
    (case Upload (container b) (PutKey param) (case PutBody param of None \<Rightarrow> [] | Some r \<Rightarrow> r)
            (NilStr (PutContentType param)) (nilMetadata (ToLower pk) order (PutMetadata param)) of
       Inl err \<Rightarrow> (Err (mapAZBError_nonnil (mapHttpError pk) err), b)
     | Inr resp \<Rightarrow>
         (Ok \<lparr>PutETag = Some (UpETag resp), PutLastModified = Some (UpLastModified resp)\<rparr>,
          b\<lparr>container := uploaded (container b) (PutKey param)
                (case PutBody param of None \<Rightarrow> [] | Some r \<Rightarrow> r)
                (NilStr (PutContentType param)) (nilMetadata (ToLower pk) order (PutMetadata param)) resp\<rparr>))"
  using assms by (subst PutBlob.simps) (auto simp add: Let_def split: sum.splits)

lemma PutBlob_slash:
  assumes "refreshToken b = None"
  shows "PutBlob pk b order
           \<lparr>PutKey = k @ slashes (Suc n), PutMetadata = md, DirBlob = True,
            PutBody = body, PutContentType = ct\<rparr> =
         PutBlob pk b order
           \<lparr>PutKey = k @ slashes n,
            PutMetadata = md(AzureDirBlobMetadataKey \<mapsto> Some ''true''), DirBlob = True,
            PutBody = body, PutContentType = ct\<rparr>"
  using assms HasSuffix_slashes [of k n] take_slashes [of k n]
  by (subst PutBlob.simps) simp

lemma PutBlob_dir_slashes:
  assumes "refreshToken b = None"
  shows "PutBlob pk b order
           \<lparr>PutKey = k @ slashes (Suc n), PutMetadata = md, DirBlob = True,
            PutBody = body, PutContentType = ct\<rparr> =
         PutBlob pk b order
           \<lparr>PutKey = k,
            PutMetadata = md(AzureDirBlobMetadataKey \<mapsto> Some ''true''), DirBlob = True,
            PutBody = body, PutContentType = ct\<rparr>"
proof (induction n arbitrary: md)
  case 0
  from PutBlob_slash [OF assms, of pk order k 0 md body ct] show ?case
    by (simp only: slashes_def replicate.simps append_Nil2)
next
  case (Suc n)
  from PutBlob_slash [OF assms, of pk order k "Suc n" md body ct]
    Suc.IH [of "md(AzureDirBlobMetadataKey \<mapsto> Some ''true'')"]
  show ?case by (simp only: fun_upd_upd)
qed

lemma nilMetadata_fold_at:
  assumes "\<forall>k \<in> set order. m k \<noteq> None \<longrightarrow> lower k = K \<longrightarrow> k = K"
  shows "fold (\<lambda>k metadata. case m k of None \<Rightarrow> metadata
                | Some v \<Rightarrow> metadata(lower k \<mapsto> NilStr v)) order acc K
    = (if K \<in> set order \<and> m K \<noteq> None \<and> lower K = K then Some (NilStr (the (m K))) else acc K)"
  using assms
proof (induction order arbitrary: acc)
  case Nil
  then show ?case by simp
next
  case (Cons k order)
  then show ?case by (auto split: option.splits)
qed

lemma nilMetadata_present:
  assumes "K \<in> set order" and "m K = Some v" and "lower K = K"
  shows "K \<in> dom (nilMetadata lower order m)"
proof -
  let ?F = "\<lambda>k metadata. case m k of None \<Rightarrow> metadata
                | Some v \<Rightarrow> metadata(lower k \<mapsto> NilStr v)"
  have step: "K \<in> dom (?F k acc)" if "k = K \<or> K \<in> dom acc" for k acc
    using that assms(2,3) by (auto split: option.splits)
  have gen: "K \<in> set order \<or> K \<in> dom acc \<Longrightarrow> K \<in> dom (fold ?F order acc)" for acc
  proof (induction order arbitrary: acc)
    case Nil
    then show ?case by simp
  next
    case (Cons k order)
    from Cons.prems have "K \<in> set order \<or> (k = K \<or> K \<in> dom acc)" by auto
    then have "K \<in> set order \<or> K \<in> dom (?F k acc)" using step [of k acc] by blast
    from Cons.IH [OF this] show ?case by simp
  qed
  from gen [of Map.empty] assms(1) show ?thesis by (simp add: nilMetadata_def)
qed


lemma HasSuffix_slash_iff: "HasSuffix s ''/'' \<longleftrightarrow> s \<noteq> [] \<and> last s = CHR ''/''"
  by (cases s rule: rev_cases) (simp_all add: HasSuffix_def)

lemma slash_decompose:
  assumes "HasSuffix key ''/''"
  shows "\<exists>k n. key = k @ slashes (Suc n) \<and> \<not> HasSuffix k ''/''"
proof -
  let ?t = "takeWhile (\<lambda>c. c = CHR ''/'') (rev key)"
  let ?d = "dropWhile (\<lambda>c. c = CHR ''/'') (rev key)"
  have key: "key = rev ?d @ rev ?t"
    by (metis rev_append rev_rev_ident takeWhile_dropWhile_id)
  have t: "rev ?t = slashes (length ?t)"
  proof -
    have "\<forall>c \<in> set (rev ?t). c = CHR ''/''" by (auto dest: set_takeWhileD)
    then have "replicate (length (rev ?t)) CHR ''/'' = rev ?t"
      by (rule replicate_length_same)
    then show ?thesis by (simp add: slashes_def)
  qed
  from assms have "key \<noteq> []" "last key = CHR ''/''"
    by (simp_all add: HasSuffix_slash_iff)
  then have "rev key \<noteq> []" "hd (rev key) = CHR ''/''" by (simp_all add: hd_rev)
  then have "?t \<noteq> []" by (cases "rev key") auto
  then obtain n where n: "length ?t = Suc n" by (cases ?t) auto
  have "\<not> HasSuffix (rev ?d) ''/''"
  proof
    assume "HasSuffix (rev ?d) ''/''"
    then have "rev ?d \<noteq> []" "last (rev ?d) = CHR ''/''"
      by (simp_all add: HasSuffix_slash_iff)
    then have "?d \<noteq> []" "hd ?d = CHR ''/''" by (simp_all add: last_rev)
    then show False using hd_dropWhile [of "\<lambda>c. c = CHR ''/''" "rev key"] by simp
  qed
  with key t n show ?thesis by metis
qed

lemma ToLower_ascii_dir_key: "ToLower_ascii AzureDirBlobMetadataKey = AzureDirBlobMetadataKey"
  by (simp add: AzureDirBlobMetadataKey_def ToLower_ascii_def ascii_lower_def)

lemma HeadBlob_not_dir_slashes:
  assumes "refreshToken b = None" and "\<not> HasSuffix k ''/''"
    and "GetProperties (container b) k = Inr resp"
    and "NewMetadata resp AzureDirBlobMetadataKey = None"
  shows "snd (HeadBlob pk b (k @ slashes (Suc j))) = Some (Sys ENOENT)"
proof -
  from HeadBlob_leaf [OF assms(1,2), of pk] assms(3,4)
  obtain h where "HeadBlob pk b k = (Some h, None)" and "\<not> IsDirBlob h" by simp
  from HeadBlob_file_slashes [OF assms(1) this] show ?thesis by simp
qed

text \<open>
  C2 (as amended). For a key \<open>k\<close> that does not end in a slash, followed by one or
  more slashes: a \<open>PutBlob\<close> with \<open>DirBlob\<close> that succeeds has uploaded the blob
  under \<open>k\<close>, all the slashes taken off, with the metadata
  \<open>nilMetadata\<close> makes of the given metadata and \<open>hdi_isfolder = true\<close>; the flag is
  \<open>true\<close> in it when \<open>strings.ToLower\<close> maps no other key of the given metadata to
  \<open>hdi_isfolder\<close> (and leaves \<open>hdi_isfolder\<close>, which is in lower case, as it is).
  After that, \<open>HeadBlob\<close> of \<open>k\<close> followed by any number of slashes succeeds
  with \<open>IsDirBlob\<close>. For any backend, \<open>HeadBlob\<close> of a key of one or more slashes
  after \<open>k2\<close> returns \<open>ENOENT\<close> when the blob \<open>k2\<close> has no \<open>hdi_isfolder\<close>.
\<close>

theorem PutBlob_dir_then_HeadBlob:
  assumes nk: "\<not> HasSuffix k ''/''"
    and put: "PutBlob pk b order
                \<lparr>PutKey = k @ slashes (Suc n), PutMetadata = md, DirBlob = True,
                 PutBody = body, PutContentType = ct\<rparr> = (Ok out, b')"
    and ord: "range_order order (md(AzureDirBlobMetadataKey \<mapsto> Some ''true''))"
    and lk: "ToLower pk AzureDirBlobMetadataKey = AzureDirBlobMetadataKey"
    and nv: "no_case_variant pk md"
  shows "(\<exists>resp metadata.
            Upload (container b) k (case body of None \<Rightarrow> [] | Some r \<Rightarrow> r) (NilStr ct) metadata
              = Inr resp
            \<and> metadata = nilMetadata (ToLower pk) order (md(AzureDirBlobMetadataKey \<mapsto> Some ''true''))
            \<and> metadata AzureDirBlobMetadataKey = Some ''true''
            \<and> b' = b\<lparr>container := uploaded (container b) k
                         (case body of None \<Rightarrow> [] | Some r \<Rightarrow> r) (NilStr ct) metadata resp\<rparr>)
    \<and> (\<forall>j. \<exists>h. HeadBlob pk b' (k @ slashes j) = (Some h, None) \<and> IsDirBlob h)
    \<and> (refreshToken b2 = None \<and> \<not> HasSuffix k2 ''/''
        \<and> GetProperties (container b2) k2 = Inr resp2
        \<and> NewMetadata resp2 AzureDirBlobMetadataKey = None
        \<longrightarrow> snd (HeadBlob pk b2 (k2 @ slashes (Suc j2))) = Some (Sys ENOENT))"
proof -
  let ?md = "md(AzureDirBlobMetadataKey \<mapsto> Some ''true'')"
  let ?body = "case body of None \<Rightarrow> [] | Some r \<Rightarrow> r"
  let ?meta = "nilMetadata (ToLower pk) order ?md"
  from put have rt: "refreshToken b = None"
    by (cases "refreshToken b") (simp_all add: PutBlob.simps [of pk b order])
  let ?leaf = "\<lparr>PutKey = k, PutMetadata = ?md, DirBlob = True, PutBody = body, PutContentType = ct\<rparr>"
  from put PutBlob_dir_slashes [OF rt] have leaf: "PutBlob pk b order ?leaf = (Ok out, b')" by simp
  from nk have "\<not> (DirBlob ?leaf \<and> HasSuffix (PutKey ?leaf) ''/'')" by simp
  from PutBlob_leaf [OF rt this, of pk order] leaf
  obtain resp where up: "Upload (container b) k ?body (NilStr ct) ?meta = Inr resp"
    and b': "b' = b\<lparr>container := uploaded (container b) k ?body (NilStr ct) ?meta resp\<rparr>"
    by (cases "Upload (container b) k ?body (NilStr ct) ?meta") auto
  from ord have in_order: "AzureDirBlobMetadataKey \<in> set order"
    and set_order: "set order = dom ?md" by (auto simp add: range_order_def)
  have "\<forall>k' \<in> set order. ?md k' \<noteq> None \<longrightarrow> ToLower pk k' = AzureDirBlobMetadataKey
      \<longrightarrow> k' = AzureDirBlobMetadataKey"
    using nv set_order by (auto simp add: no_case_variant_def)
  from nilMetadata_fold_at [OF this, of Map.empty] in_order
  have flag: "?meta AzureDirBlobMetadataKey = Some ''true''"
    by (simp add: nilMetadata_def lk NilStr_def)
  have first: "\<exists>resp metadata.
            Upload (container b) k ?body (NilStr ct) metadata = Inr resp
            \<and> metadata = ?meta
            \<and> metadata AzureDirBlobMetadataKey = Some ''true''
            \<and> b' = b\<lparr>container := uploaded (container b) k ?body (NilStr ct) metadata resp\<rparr>"
    using up b' flag by blast
  from b' rt have rt': "refreshToken b' = None" by simp
  from b' have "\<exists>r. GetProperties (container b') k = Inr r \<and> NewMetadata r = ?meta"
    by (simp add: uploaded_def)
  then obtain r where gp: "GetProperties (container b') k = Inr r" and nm: "NewMetadata r = ?meta"
    by blast
  from HeadBlob_leaf [OF rt' nk, of pk] gp nm flag
  obtain h where h: "HeadBlob pk b' k = (Some h, None)" and dir: "IsDirBlob h" by simp
  have second: "\<forall>j. \<exists>h. HeadBlob pk b' (k @ slashes j) = (Some h, None) \<and> IsDirBlob h"
    using HeadBlob_dir_slashes [OF rt' h dir] dir by blast
  have third: "refreshToken b2 = None \<and> \<not> HasSuffix k2 ''/''
        \<and> GetProperties (container b2) k2 = Inr resp2
        \<and> NewMetadata resp2 AzureDirBlobMetadataKey = None
        \<longrightarrow> snd (HeadBlob pk b2 (k2 @ slashes (Suc j2))) = Some (Sys ENOENT)"
    using HeadBlob_not_dir_slashes by blast
  from first second third show ?thesis by blast
qed


text \<open>
  The example container: the directory \<open>d/\<close> is put with a mode in its metadata and
  then found as a directory blob; \<open>b/\<close> is not found, since \<open>b\<close> is a file.
\<close>

theorem PutBlob_dir_then_HeadBlob_witness:
  "\<not> HasSuffix ''d'' ''/''
   \<and> range_order [''Mode'', ''hdi_isfolder'']
        ([''Mode'' \<mapsto> Some ''493''](AzureDirBlobMetadataKey \<mapsto> Some ''true''))
   \<and> ToLower ex_pkg AzureDirBlobMetadataKey = AzureDirBlobMetadataKey
   \<and> no_case_variant ex_pkg [''Mode'' \<mapsto> Some ''493'']
   \<and> (\<exists>out b'. PutBlob ex_pkg ex_backend [''Mode'', ''hdi_isfolder'']
                  (ex_put ''d/'' [''Mode'' \<mapsto> Some ''493'']) = (Ok out, b')
          \<and> (\<exists>h. HeadBlob ex_pkg b' ''d/'' = (Some h, None) \<and> IsDirBlob h))
   \<and> snd (HeadBlob ex_pkg ex_backend ''b/'') = Some (Sys ENOENT)"
proof -
  let ?order = "[''Mode'', ''hdi_isfolder'']"
  let ?md = "[''Mode'' \<mapsto> Some ''493'']"
  have nk: "\<not> HasSuffix ''d'' ''/''" and nb: "\<not> HasSuffix ''b'' ''/''"
    by (simp_all add: HasSuffix_def)
  have ord: "range_order ?order (?md(AzureDirBlobMetadataKey \<mapsto> Some ''true''))"
    by (auto simp add: range_order_def AzureDirBlobMetadataKey_def)
  have lk: "ToLower ex_pkg AzureDirBlobMetadataKey = AzureDirBlobMetadataKey"
    by (simp add: ex_pkg_def ToLower_ascii_dir_key)
  have nv: "no_case_variant ex_pkg ?md"
    by (simp add: no_case_variant_def put_defs ex_pkg_def)
  have "\<exists>out b'. PutBlob ex_pkg ex_backend ?order (ex_put ''d/'' ?md) = (Ok out, b')"
    by (simp add: PutBlob.simps put_defs ex_defs)
  then obtain out b' where
    put: "PutBlob ex_pkg ex_backend ?order (ex_put (''d'' @ slashes (Suc 0)) ?md) = (Ok out, b')"
    by (auto simp add: slashes_def)
  have b: "refreshToken ex_backend = None \<and> \<not> HasSuffix ''b'' ''/''
      \<and> GetProperties (container ex_backend) ''b'' = Inr (ex_props Map.empty)
      \<and> NewMetadata (ex_props Map.empty) AzureDirBlobMetadataKey = None"
    by (simp add: ex_defs HasSuffix_def)
  from PutBlob_dir_then_HeadBlob [OF nk put [unfolded ex_put_def] ord lk nv,
      of ex_backend "''b''" "ex_props Map.empty" 0] b
  have "(\<exists>h. HeadBlob ex_pkg b' (''d'' @ slashes (Suc 0)) = (Some h, None) \<and> IsDirBlob h)
      \<and> snd (HeadBlob ex_pkg ex_backend (''b'' @ slashes (Suc 0))) = Some (Sys ENOENT)"
    by blast
  with nk ord lk nv put show ?thesis by (auto simp add: slashes_def)
qed

text \<open>
  C2 as stated fails in two ways. For the key \<open>d//\<close> the blob is not stored under
  \<open>d/\<close>, the key without its last slash, but under \<open>d\<close>: \<open>PutBlob\<close> calls itself
  until no slash is left. And when the given metadata has the key \<open>HDI_ISFOLDER\<close>
  (which \<open>strings.ToLower\<close> maps to \<open>hdi_isfolder\<close>),
  \<open>nilMetadata\<close> writes it to the key \<open>hdi_isfolder\<close> as well; visited last
  (the order in the counterexample is an order of the keys of the map), its value
  replaces \<open>true\<close>.
\<close>

theorem PutBlob_dir_counterexample:
  "fst (PutBlob ex_pkg ex_backend [''hdi_isfolder''] (ex_put ''d//'' Map.empty))
     = Ok \<lparr>PutETag = Some ''0x2'', PutLastModified = Some 1\<rparr>
   \<and> GetProperties (container (snd (PutBlob ex_pkg ex_backend [''hdi_isfolder'']
        (ex_put ''d//'' Map.empty)))) ''d/'' = Inl ex_not_found
   \<and> map_sum id (\<lambda>r. NewMetadata r ''hdi_isfolder'')
        (GetProperties (container (snd (PutBlob ex_pkg ex_backend [''hdi_isfolder'']
           (ex_put ''d//'' Map.empty)))) ''d'') = Inr (Some ''true'')
   \<and> range_order [''hdi_isfolder'', ''HDI_ISFOLDER'']
        ([''HDI_ISFOLDER'' \<mapsto> Some ''no''](AzureDirBlobMetadataKey \<mapsto> Some ''true''))
   \<and> map_sum id (\<lambda>r. NewMetadata r ''hdi_isfolder'')
        (GetProperties (container (snd (PutBlob ex_pkg ex_backend
           [''hdi_isfolder'', ''HDI_ISFOLDER'']
           (ex_put ''d/'' [''HDI_ISFOLDER'' \<mapsto> Some ''no''])))) ''d'') = Inr (Some ''no'')"
proof -
  have "range_order [''hdi_isfolder'', ''HDI_ISFOLDER'']
        ([''HDI_ISFOLDER'' \<mapsto> Some ''no''](AzureDirBlobMetadataKey \<mapsto> Some ''true''))"
    by (auto simp add: range_order_def AzureDirBlobMetadataKey_def)
  then show ?thesis
    by (simp add: PutBlob.simps put_defs ex_defs)
qed


subsection \<open>Binary search and the order of a listing\<close>

text \<open>Binary search on a predicate that is monotone on the range.\<close>

lemma Search_loop_spec:
  assumes "i \<le> j"
    and "\<forall>x y. x \<le> y \<and> y < n \<and> f x \<longrightarrow> f y"
    and "j \<le> n"
    and "\<forall>x < i. \<not> f x" and "\<forall>x. j \<le> x \<and> x < n \<longrightarrow> f x"
  shows "i \<le> Search_loop f i j \<and> Search_loop f i j \<le> j
    \<and> (\<forall>x < Search_loop f i j. \<not> f x)
    \<and> (\<forall>x. Search_loop f i j \<le> x \<and> x < n \<longrightarrow> f x)"
  using assms
proof (induction f i j rule: Search_loop.induct)
  case (1 f i j)
  show ?case
  proof (cases "i < j")
    case False
    then have "Search_loop f i j = i" by (subst Search_loop.simps) simp
    with False "1.prems" show ?thesis by auto
  next
    case True
    let ?h = "(i + j) div 2"
    from True have h: "i \<le> ?h" "?h < j" by auto
    show ?thesis
    proof (cases "f ?h")
      case fh: True
      have below: "\<forall>x. ?h \<le> x \<and> x < n \<longrightarrow> f x"
        using fh "1.prems"(2) by blast
      from "1.IH"(2) [OF True refl _ h(1) "1.prems"(2) _ "1.prems"(4) below] fh h "1.prems"(3)
      have "i \<le> Search_loop f i ?h \<and> Search_loop f i ?h \<le> ?h
        \<and> (\<forall>x < Search_loop f i ?h. \<not> f x)
        \<and> (\<forall>x. Search_loop f i ?h \<le> x \<and> x < n \<longrightarrow> f x)" by simp
      moreover from True fh have "Search_loop f i j = Search_loop f i ?h"
        by (subst Search_loop.simps) (simp add: Let_def)
      ultimately show ?thesis using h by simp
    next
      case nfh: False
      have above: "\<forall>x < ?h + 1. \<not> f x"
      proof (intro allI impI)
        fix x assume "x < ?h + 1"
        then have "x \<le> ?h" by simp
        moreover from h "1.prems"(3) have "?h < n" by simp
        ultimately show "\<not> f x" using nfh "1.prems"(2) by blast
      qed
      from h have "?h + 1 \<le> j" by simp
      from "1.IH"(1) [OF True refl nfh this "1.prems"(2,3) above "1.prems"(5)]
      have "?h + 1 \<le> Search_loop f (?h + 1) j \<and> Search_loop f (?h + 1) j \<le> j
        \<and> (\<forall>x < Search_loop f (?h + 1) j. \<not> f x)
        \<and> (\<forall>x. Search_loop f (?h + 1) j \<le> x \<and> x < n \<longrightarrow> f x)" .
      moreover from True nfh have "Search_loop f i j = Search_loop f (?h + 1) j"
        by (subst Search_loop.simps) (simp add: Let_def)
      ultimately show ?thesis using h by simp
    qed
  qed
qed

lemma Search_spec:
  assumes "\<forall>x y. x \<le> y \<and> y < n \<and> f x \<longrightarrow> f y"
  shows "Search n f \<le> n \<and> (\<forall>x < Search n f. \<not> f x)
    \<and> (\<forall>x. Search n f \<le> x \<and> x < n \<longrightarrow> f x)"
proof -
  have "(0::nat) \<le> n" "n \<le> n" "\<forall>x<(0::nat). \<not> f x" "\<forall>x. n \<le> x \<and> x < n \<longrightarrow> f x"
    by auto
  from Search_loop_spec [OF this(1) assms this(2,3,4)] show ?thesis
    unfolding Search_def by blast
qed

lemma sorted_insert_at:
  fixes xs :: "'a::linorder list"
  assumes "sorted xs" and "\<forall>p \<in> set (take k xs). p \<le> a" and "\<forall>p \<in> set (drop k xs). a \<le> p"
  shows "sorted (take k xs @ [a] @ drop k xs)"
proof -
  have t: "sorted (take k xs)" using assms(1) by (rule sorted_wrt_take)
  have d: "sorted (drop k xs)" using assms(1) by (rule sorted_wrt_drop)
  have "sorted ([a] @ drop k xs)" using d assms(3) by simp
  moreover have "\<forall>p \<in> set (take k xs). \<forall>q \<in> set ([a] @ drop k xs). p \<le> q"
  proof (intro ballI)
    fix p q assume p: "p \<in> set (take k xs)" and q: "q \<in> set ([a] @ drop k xs)"
    from p assms(2) have "p \<le> a" by blast
    moreover from q assms(3) have "a \<le> q" by auto
    ultimately show "p \<le> q" by (rule order_trans)
  qed
  ultimately show ?thesis using t by (subst sorted_append) blast
qed

lemma insert_prefix_sorted:
  assumes "sorted prefixes"
  shows "sorted (insert_prefix prefixes name)"
proof -
  let ?n = "length prefixes"
  let ?f = "\<lambda>idx. prefixes ! idx \<ge> name"
  let ?idx = "Search ?n ?f"
  have mono: "\<forall>x y. x \<le> y \<and> y < ?n \<and> ?f x \<longrightarrow> ?f y"
  proof (intro allI impI)
    fix x y assume a: "x \<le> y \<and> y < ?n \<and> name \<le> prefixes ! x"
    with assms have "prefixes ! x \<le> prefixes ! y" by (simp add: sorted_nth_mono)
    with a show "name \<le> prefixes ! y" by (meson order_trans)
  qed
  from Search_spec [OF mono]
  have le: "?idx \<le> ?n" and lo: "\<forall>x < ?idx. \<not> ?f x"
    and hi: "\<forall>x. ?idx \<le> x \<and> x < ?n \<longrightarrow> ?f x" by blast+
  have low: "\<forall>p \<in> set (take ?idx prefixes). p \<le> name"
  proof
    fix p assume "p \<in> set (take ?idx prefixes)"
    then obtain x where "x < length (take ?idx prefixes)" "take ?idx prefixes ! x = p"
      by (auto simp add: in_set_conv_nth)
    then have "x < ?idx" "p = prefixes ! x" by simp_all
    with lo show "p \<le> name" by auto
  qed
  have high: "\<forall>p \<in> set (drop ?idx prefixes). name \<le> p"
  proof
    fix p assume "p \<in> set (drop ?idx prefixes)"
    then obtain x where "x < length (drop ?idx prefixes)" "drop ?idx prefixes ! x = p"
      by (auto simp add: in_set_conv_nth)
    then have "?idx \<le> ?idx + x" "?idx + x < ?n" "p = prefixes ! (?idx + x)" by simp_all
    with hi show "name \<le> p" by blast
  qed
  have ins: "sorted (take ?idx prefixes @ [name] @ drop ?idx prefixes)"
    using assms low high by (rule sorted_insert_at)
  show ?thesis
  proof (cases "?idx \<ge> ?n")
    case True
    with ins have "sorted (prefixes @ [name])" by simp
    with True show ?thesis by (simp add: insert_prefix_def Let_def)
  next
    case False
    show ?thesis
    proof (cases "prefixes ! ?idx \<noteq> name")
      case True
      with False ins show ?thesis by (simp add: insert_prefix_def Let_def)
    next
      case same: False
      with False assms show ?thesis by (simp add: insert_prefix_def Let_def)
    qed
  qed
qed


lemma list_item_sort_flag:
  assumes "list_item pk d i (ps, items, s) = Some (ps', items', s')"
  shows "s' = (s \<or> (\<not> d \<and> is_dir_blob i))"
  using assms by (cases rule: list_item_cases) auto

lemma list_item_keys:
  assumes "list_item pk d i (ps, items, s) = Some (ps', items', s')" and "\<not> s'"
  shows "map Key items' = map Key items @ map Name (filter (\<lambda>i. \<not> is_dir_blob i) [i])"
  using assms by (cases rule: list_item_cases) auto

lemma list_item_sorted_prefixes:
  assumes "list_item pk d i (ps, items, s) = Some (ps', items', s')" and "sorted ps"
  shows "sorted ps'"
  using assms by (cases rule: list_item_cases) (auto simp add: insert_prefix_sorted)

lemma list_loop_sorted_prefixes:
  "list_loop pk d blobs (ps, items, s) = Some (ps', items', s') \<Longrightarrow> sorted ps \<Longrightarrow> sorted ps'"
proof (induction blobs arbitrary: ps items s)
  case Nil
  then show ?case by simp
next
  case (Cons i blobs)
  from Cons.prems(1) obtain ps1 items1 s1 where
    st: "list_item pk d i (ps, items, s) = Some (ps1, items1, s1)"
    and rest: "list_loop pk d blobs (ps1, items1, s1) = Some (ps', items', s')"
    by (rule list_loop_Cons)
  from list_item_sorted_prefixes [OF st Cons.prems(2)] have "sorted ps1" .
  from Cons.IH [OF rest this] show ?case .
qed

lemma list_loop_flat_prefixes:
  "list_loop pk False blobs (ps, items, s) = Some (ps', items', s') \<Longrightarrow> ps' = ps"
proof (induction blobs arbitrary: ps items s)
  case Nil
  then show ?case by simp
next
  case (Cons i blobs)
  from Cons.prems(1) obtain ps1 items1 s1 where
    st: "list_item pk False i (ps, items, s) = Some (ps1, items1, s1)"
    and rest: "list_loop pk False blobs (ps1, items1, s1) = Some (ps', items', s')"
    by (rule list_loop_Cons)
  from st have "ps1 = ps" by (cases rule: list_item_cases) auto
  with Cons.IH [OF rest] show ?case by simp
qed

lemma list_loop_sort_flag:
  "list_loop pk d blobs (ps, items, s) = Some (ps', items', s') \<Longrightarrow>
   s' = (s \<or> (\<not> d \<and> (\<exists>i \<in> set blobs. is_dir_blob i)))"
proof (induction blobs arbitrary: ps items s)
  case Nil
  then show ?case by simp
next
  case (Cons i blobs)
  from Cons.prems(1) obtain ps1 items1 s1 where
    st: "list_item pk d i (ps, items, s) = Some (ps1, items1, s1)"
    and rest: "list_loop pk d blobs (ps1, items1, s1) = Some (ps', items', s')"
    by (rule list_loop_Cons)
  from list_item_sort_flag [OF st] Cons.IH [OF rest] show ?case by auto
qed

lemma list_loop_keys:
  "list_loop pk d blobs (ps, items, s) = Some (ps', items', s') \<Longrightarrow> \<not> s' \<Longrightarrow>
   map Key items' = map Key items @ map Name (filter (\<lambda>i. \<not> is_dir_blob i) blobs)"
proof (induction blobs arbitrary: ps items s)
  case Nil
  then show ?case by simp
next
  case (Cons i blobs)
  from Cons.prems(1) obtain ps1 items1 s1 where
    st: "list_item pk d i (ps, items, s) = Some (ps1, items1, s1)"
    and rest: "list_loop pk d blobs (ps1, items1, s1) = Some (ps', items', s')"
    by (rule list_loop_Cons)
  from list_loop_sort_flag [OF rest] Cons.prems(2) have "\<not> s1" by simp
  from list_item_keys [OF st this] Cons.IH [OF rest Cons.prems(2)] show ?case by simp
qed

lemma fill_dir_blob_cases:
  assumes "fill_dir_blob pk b prefix (items, s) = Ok (items', s')"
  obtains (kept) "items' = items" and "s' = s"
      and "\<not> (HasSuffix prefix ''/'' \<and> snd (HeadBlob pk b prefix) = None)"
  | (added) dirBlob where "s'" and "HeadBlob pk b prefix = (Some dirBlob, None)"
      and "items' = items @ [BlobItemOutput.truncate (dirBlob\<lparr>Key := Key dirBlob @ ''/''\<rparr>)]"
proof (cases "HasSuffix prefix ''/''")
  case False
  with assms kept show thesis by (simp add: fill_dir_blob_def)
next
  case True
  obtain d r where head: "HeadBlob pk b prefix = (d, r)" by (cases "HeadBlob pk b prefix")
  show thesis
  proof (cases r)
    case (Some err)
    with assms True head kept show thesis
      by (auto simp add: fill_dir_blob_def split: option.splits if_splits)
  next
    case None
    with assms True head added show thesis
      by (auto simp add: fill_dir_blob_def split: option.splits)
  qed
qed

text \<open>
  C1 (as amended). In a successful listing the prefixes are in ascending order when
  the service sent its blob prefixes in order, or the endpoint is Azurite, or no
  delimiter was given; the items are in ascending order of key when the service sent
  its blobs in order of name, or a directory blob was renamed in a flat listing, or
  the directory blob of the prefix was appended. (What the flat branch does with an
  unsorted answer of Azurite is shown after the counterexample.)
\<close>

theorem ListBlobs_sorted:
  assumes ok: "ListBlobs pk b param = Ok out"
    and req: "list_request b param
                \<lparr>OptPrefix = NilStr (Prefix param), MaxResults = nilUint32 (MaxKeys param)\<rparr>
              = Inr resp"
  shows "(Delimiter param = None \<or> sorted (BlobPrefixes resp) \<or> Endpoint b = AzuriteEndpoint
            \<longrightarrow> sorted (Prefixes out))
     \<and> (sorted (map Name (BlobItems resp))
        \<or> (Delimiter param = None \<and> (\<exists>i \<in> set (BlobItems resp). is_dir_blob i))
        \<or> (HasSuffix (NilStr (Prefix param)) ''/''
            \<and> snd (HeadBlob pk b (NilStr (Prefix param))) = None)
        \<longrightarrow> sorted (map Key (Items out)))"
  using ok
proof (cases rule: ListBlobs_Ok_cases)
  case early
  then show ?thesis by simp
next
  case (full prefixes blobItems nextMarker ps items s items' s')
  from full(3) obtain resp' where r': "list_request b param
      \<lparr>OptPrefix = NilStr (Prefix param), MaxResults = nilUint32 (MaxKeys param)\<rparr> = Inr resp'"
    and bi: "blobItems = BlobItems resp'"
    and flat: "Delimiter param = None \<longrightarrow> prefixes = []"
    and hier: "Delimiter param \<noteq> None \<longrightarrow>
         prefixes = (if Endpoint b = AzuriteEndpoint \<and> \<not> sorted (BlobPrefixes resp')
                     then sortBlobPrefixOutput (BlobPrefixes resp') else BlobPrefixes resp')"
    by (rule list_segment_request)
  from r' req have resp: "resp' = resp" by simp
  have prefixes: "sorted (Prefixes out)"
    if "Delimiter param = None \<or> sorted (BlobPrefixes resp) \<or> Endpoint b = AzuriteEndpoint"
  proof -
    from that flat hier resp have "sorted prefixes"
      by (cases "Delimiter param") (auto simp add: sortBlobPrefixOutput_def)
    from list_loop_sorted_prefixes [OF full(5) this] full(7) show ?thesis by simp
  qed
  have items: "sorted (map Key (Items out))"
    if "sorted (map Name (BlobItems resp))
        \<or> (Delimiter param = None \<and> (\<exists>i \<in> set (BlobItems resp). is_dir_blob i))
        \<or> (HasSuffix (NilStr (Prefix param)) ''/''
            \<and> snd (HeadBlob pk b (NilStr (Prefix param))) = None)"
  proof (cases s')
    case True
    with full(7) show ?thesis by (simp add: sortBlobItemOutput_def)
  next
    case False
    from full(6) False have same: "items' = items" "s' = s"
      and nohead: "\<not> (HasSuffix (NilStr (Prefix param)) ''/''
            \<and> snd (HeadBlob pk b (NilStr (Prefix param))) = None)"
      by (cases rule: fill_dir_blob_cases; simp)+
    from list_loop_sort_flag [OF full(5)] same False bi resp
    have nomark: "\<not> (Delimiter param = None \<and> (\<exists>i \<in> set (BlobItems resp). is_dir_blob i))"
      by auto
    from that nohead nomark have srt: "sorted (map Name (BlobItems resp))" by blast
    from list_loop_keys [OF full(5)] same False bi resp
    have "map Key items' = map Name (filter (\<lambda>i. \<not> is_dir_blob i) (BlobItems resp))" by simp
    with srt have "sorted (map Key items')" by (simp add: sorted_filter)
    with full(7) False show ?thesis by simp
  qed
  from prefixes items show ?thesis by blast
qed


text \<open>
  A flat listing in which the service sends the directory blob \<open>a\<close> before \<open>a-b\<close>:
  the directory blob becomes \<open>a/\<close>, which comes after \<open>a-b\<close>, and the items are
  sorted again.
\<close>

theorem ListBlobs_sorted_witness:
  "\<exists>out. ListBlobs ex_pkg
            (ex_flat ''https://account.blob.core.windows.net/''
               [ex_blob ''a'' [''hdi_isfolder'' \<mapsto> ''true''], ex_blob ''a-b'' Map.empty])
            (ex_list [] None) = Ok out
     \<and> sorted (Prefixes out) \<and> sorted (map Key (Items out))
     \<and> map Key (Items out) = [''a-b'', ''a/'']"
proof -
  define b where "b = ex_flat ''https://account.blob.core.windows.net/''
               [ex_blob ''a'' [''hdi_isfolder'' \<mapsto> ''true''], ex_blob ''a-b'' Map.empty]"
  define p where "p = ex_list [] None"
  define resp where "resp = \<lparr>BlobPrefixes = [],
      BlobItems = [ex_blob ''a'' [''hdi_isfolder'' \<mapsto> ''true''], ex_blob ''a-b'' Map.empty],
      NextMarker = None\<rparr>"
  define keys where "keys = [''a-b'', ''a/'']"
  have "\<exists>out. ListBlobs ex_pkg b p = Ok out \<and> map Key (Items out) = keys"
    unfolding b_def p_def keys_def by (simp add: list_defs ex_defs ex_flat_def)
  then obtain out where ok: "ListBlobs ex_pkg b p = Ok out"
    and keys: "map Key (Items out) = keys" by blast
  have req: "list_request b p
      \<lparr>OptPrefix = NilStr (Prefix p), MaxResults = nilUint32 (MaxKeys p)\<rparr> = Inr resp"
    unfolding b_def p_def resp_def
    by (simp add: list_request_def ex_list_def ex_flat_def ex_backend_def ex_service_def)
  have pre: "Delimiter p = None" "sorted (map Name (BlobItems resp))"
    unfolding p_def resp_def by (simp_all add: ex_list_def ex_blob_def)
  from ListBlobs_sorted [OF ok req] pre
  have "sorted (Prefixes out)" "sorted (map Key (Items out))" by blast+
  with ok keys have "\<exists>out. ListBlobs ex_pkg b p = Ok out
     \<and> sorted (Prefixes out) \<and> sorted (map Key (Items out)) \<and> map Key (Items out) = keys"
    by blast
  then show ?thesis unfolding b_def p_def keys_def .
qed
text \<open>
  C1 as stated fails: the items are sorted again only in the cases above, and the
  prefixes only behind the test for the Azurite endpoint. On any other endpoint a
  flat listing that the service sends out of order is returned in that order.
\<close>

theorem ListBlobs_unsorted_counterexample:
  "map_result (\<lambda>out. map Key (Items out))
     (ListBlobs ex_pkg
        (ex_flat ''https://account.blob.core.windows.net/''
           [ex_blob ''b'' Map.empty, ex_blob ''a'' Map.empty])
        (ex_list [] None)) = Ok [''b'', ''a'']
   \<and> \<not> sorted [''b'', ''a'']"
  by (simp add: list_defs ex_defs ex_flat_def)
text \<open>
  On the Azurite endpoint the flat branch (lines 544-547) sorts \<open>items\<close> before the
  loop has filled it, so the same listing comes back out of order there as well.
\<close>

lemma ListBlobs_Azurite_flat_unsorted:
  "map_result (\<lambda>out. map Key (Items out))
     (ListBlobs ex_pkg
        (ex_flat AzuriteEndpoint [ex_blob ''b'' Map.empty, ex_blob ''a'' Map.empty])
        (ex_list [] None)) = Ok [''b'', ''a'']"
  by (simp add: list_defs ex_defs ex_flat_def)


subsection \<open>Listing under the key of a file\<close>

text \<open>
  C6. Let \<open>k\<close> be the key of a file: the service answers a listing under the
  prefix \<open>k\<close> with that one blob, which has no directory flag, and a listing under
  \<open>k/\<close> with nothing (or, with hierarchical namespaces, with the blob \<open>k\<close>
  itself); the blob \<open>k\<close> has no directory flag. Then the listing under \<open>k\<close>
  has that single item and no prefix, and the listing under \<open>k/\<close> is empty.
\<close>

theorem ListBlobs_file_prefix:
  assumes nk: "\<not> HasSuffix k ''/''"
    and rt: "refreshToken b = None"
    and pA: "Prefix pA = Some k" "StartAfter pA = None"
    and rA: "list_request b pA \<lparr>OptPrefix = k, MaxResults = nilUint32 (MaxKeys pA)\<rparr> = Inr respA"
      "BlobPrefixes respA = []" "BlobItems respA = [i]" "Name i = k"
      "BlobMetadata i AzureDirBlobMetadataKey = None" "ContentLength i \<noteq> None"
    and pB: "Prefix pB = Some (k @ ''/'')" "StartAfter pB = None"
    and rB: "list_request b pB \<lparr>OptPrefix = k @ ''/'', MaxResults = nilUint32 (MaxKeys pB)\<rparr>
               = Inr respB"
      "BlobPrefixes respB = []"
      "BlobItems respB = [] \<or> (\<exists>j. BlobItems respB = [j] \<and> Name j = k)"
    and head: "GetProperties (container b) k = Inr r" "NewMetadata r AzureDirBlobMetadataKey = None"
  shows "(\<exists>out. ListBlobs pk b pA = Ok out \<and> Prefixes out = [] \<and> map Key (Items out) = [k])
    \<and> (\<exists>out. ListBlobs pk b pB = Ok out \<and> Prefixes out = [] \<and> Items out = [])"
proof -
  have segA: "list_segment pk b pA \<lparr>OptPrefix = k, MaxResults = nilUint32 (MaxKeys pA)\<rparr>
      = Inr ([], [], [i], NextMarker respA)"
    using rA(1,2,3) by (cases "Delimiter pA") (simp_all add: list_segment_def Let_def)
  have notblob: "\<not> prefix_is_blob [i] k"
    using nk by (simp add: prefix_is_blob_def)
  from rA(6) obtain n where n: "ContentLength i = Some n" by blast
  have itemA: "\<exists>it. list_item pk (Delimiter pA \<noteq> None) i ([], [], False) = Some ([], [it], False)
      \<and> Key it = k"
    using rA(4,5) n by (simp add: list_item_def is_dir_blob_def Let_def)
  then obtain it where it: "list_loop pk (Delimiter pA \<noteq> None) [i] ([], [], False)
      = Some ([], [it], False)" and kit: "Key it = k" by auto
  have fillA: "fill_dir_blob pk b k ([it], False) = Ok ([it], False)"
    using nk by (simp add: fill_dir_blob_def)
  have A: "\<exists>out. ListBlobs pk b pA = Ok out \<and> Prefixes out = [] \<and> map Key (Items out) = [k]"
    using pA rt segA notblob it fillA kit
    by (simp add: ListBlobs_def NilStr_def Let_def)
  have slash: "HasSuffix (k @ ''/'') ''/''" by (simp add: HasSuffix_def)
  from HeadBlob_not_dir_slashes [OF rt nk head, of pk 0]
  have enoent: "snd (HeadBlob pk b (k @ ''/'')) = Some (Sys ENOENT)" by (simp add: slashes_def)
  have fillB: "fill_dir_blob pk b (k @ ''/'') ([], False) = Ok ([], False)"
    using slash enoent
    by (cases "HeadBlob pk b (k @ ''/'')") (auto simp add: fill_dir_blob_def split: option.splits)
  have segB: "list_segment pk b pB \<lparr>OptPrefix = k @ ''/'', MaxResults = nilUint32 (MaxKeys pB)\<rparr>
      = Inr ([], [], BlobItems respB, NextMarker respB)"
    using rB(1,2) by (cases "Delimiter pB") (simp_all add: list_segment_def Let_def)
  have B: "\<exists>out. ListBlobs pk b pB = Ok out \<and> Prefixes out = [] \<and> Items out = []"
  proof (cases "BlobItems respB = []")
    case True
    then have "\<not> prefix_is_blob (BlobItems respB) (k @ ''/'')" by (simp add: prefix_is_blob_def)
    with True pB rt segB fillB show ?thesis
      by (simp add: ListBlobs_def NilStr_def Let_def)
  next
    case False
    with rB(3) obtain j where "BlobItems respB = [j]" "Name j = k" by blast
    with slash have "prefix_is_blob (BlobItems respB) (k @ ''/'')" by (simp add: prefix_is_blob_def)
    with pB rt segB show ?thesis
      by (simp add: ListBlobs_def NilStr_def Let_def)
  qed
  from A B show ?thesis by blast
qed


text \<open>
  The example container: \<open>b\<close> is a file; the listings under \<open>b\<close> and \<open>b/\<close>.
\<close>

theorem ListBlobs_file_prefix_witness:
  "(\<exists>out. ListBlobs ex_pkg ex_backend (ex_list ''b'' (Some ''/'')) = Ok out
       \<and> Prefixes out = [] \<and> map Key (Items out) = [''b''])
   \<and> (\<exists>out. ListBlobs ex_pkg ex_backend (ex_list ''b/'' (Some ''/'')) = Ok out
       \<and> Prefixes out = [] \<and> Items out = [])"
proof -
  define k where "k = ''b''"
  define pA where "pA = ex_list k (Some ''/'')"
  define pB where "pB = ex_list (k @ ''/'') (Some ''/'')"
  define i where "i = ex_blob k Map.empty"
  define respA where "respA = \<lparr>BlobPrefixes = [], BlobItems = [i], NextMarker = None\<rparr>"
  define respB where "respB = \<lparr>BlobPrefixes = [], BlobItems = ([] :: BlobItemInternal list),
    NextMarker = None\<rparr>"
  define r where "r = ex_props Map.empty"
  have nk: "\<not> HasSuffix k ''/''" by (simp add: k_def HasSuffix_def)
  have rt: "refreshToken ex_backend = None" by (simp add: ex_backend_def)
  have pA: "Prefix pA = Some k" "StartAfter pA = None" by (simp_all add: pA_def ex_list_def)
  have rA: "list_request ex_backend pA \<lparr>OptPrefix = k, MaxResults = nilUint32 (MaxKeys pA)\<rparr>
      = Inr respA"
    by (simp add: list_request_def pA_def respA_def i_def k_def ex_defs)
  have rA': "BlobPrefixes respA = []" "BlobItems respA = [i]" "Name i = k"
      "BlobMetadata i AzureDirBlobMetadataKey = None" "ContentLength i \<noteq> None"
    by (simp_all add: respA_def i_def ex_blob_def)
  have pB: "Prefix pB = Some (k @ ''/'')" "StartAfter pB = None"
    by (simp_all add: pB_def ex_list_def)
  have rB: "list_request ex_backend pB
      \<lparr>OptPrefix = k @ ''/'', MaxResults = nilUint32 (MaxKeys pB)\<rparr> = Inr respB"
    by (simp add: list_request_def pB_def respB_def k_def ex_defs)
  have rB': "BlobPrefixes respB = []"
      "BlobItems respB = [] \<or> (\<exists>j. BlobItems respB = [j] \<and> Name j = k)"
    by (simp_all add: respB_def)
  have head: "GetProperties (container ex_backend) k = Inr r"
      "NewMetadata r AzureDirBlobMetadataKey = None"
    by (simp_all add: k_def r_def ex_defs)
  from ListBlobs_file_prefix [OF nk rt pA rA rA' pB rB rB' head, of ex_pkg]
  show ?thesis unfolding pA_def pB_def k_def by simp
qed



subsection \<open>CopyBlob\<close>

lemma poll_loop_pending:
  assumes "still_pending copyID (polls n)"
  shows "poll_loop polls copyID n = poll_loop polls copyID (n + 1)"
  using assms
  by (subst poll_loop.simps) (auto simp add: still_pending_def split: sum.splits)

lemma poll_loop_skip:
  "(\<forall>m < k. still_pending copyID (polls (n + m))) \<Longrightarrow>
   poll_loop polls copyID n = poll_loop polls copyID (n + k)"
proof (induction k)
  case 0
  then show ?case by simp
next
  case (Suc k)
  then have "poll_loop polls copyID n = poll_loop polls copyID (n + k)" by simp
  also from Suc.prems have "still_pending copyID (polls (n + k))" by simp
  then have "poll_loop polls copyID (n + k) = poll_loop polls copyID (n + k + 1)"
    by (rule poll_loop_pending)
  finally show ?case by simp
qed

lemma poll_loop_error:
  "polls n = Inl err \<Longrightarrow> poll_loop polls copyID n = Some (Some err, n + 1)"
  by (subst poll_loop.simps) simp

lemma poll_loop_done:
  "polls n = Inr cp \<Longrightarrow> CopyStatus cp \<noteq> CopyStatusPending \<or> CopyID cp \<noteq> copyID \<Longrightarrow>
   poll_loop polls copyID n = Some (None, n + 1)"
  by (subst poll_loop.simps) simp


lemma poll_loop_returns_not_pending:
  assumes "poll_loop polls copyID n = Some r"
  shows "\<exists>m \<ge> n. \<not> still_pending copyID (polls m)"
proof (rule poll_loop.raw_induct
    [where P = "\<lambda>polls copyID n r. \<exists>m \<ge> n. \<not> still_pending copyID (polls m)", OF _ assms])
  fix f :: "(nat \<Rightarrow> error + BlobGetPropertiesResponse) \<Rightarrow> string \<Rightarrow> nat \<Rightarrow> (error option \<times> nat) option"
  fix polls copyID n r
  assume IH: "\<And>polls copyID n r. f polls copyID n = Some r \<Longrightarrow>
      \<exists>m \<ge> n. \<not> still_pending copyID (polls m)"
  assume eq: "(case polls n of
       Inl err \<Rightarrow> Some (Some err, n + 1)
     | Inr cp \<Rightarrow>
        if CopyStatus cp \<noteq> CopyStatusPending \<or> CopyID cp \<noteq> copyID then Some (None, n + 1)
        else f polls copyID (n + 1)) = Some r"
  show "\<exists>m \<ge> n. \<not> still_pending copyID (polls m)"
  proof (cases "still_pending copyID (polls n)")
    case False
    then show ?thesis by blast
  next
    case True
    then obtain cp where cp: "polls n = Inr cp" "CopyStatus cp = CopyStatusPending"
      "CopyID cp = copyID"
      by (cases "polls n") (simp_all add: still_pending_def)
    from eq cp have "f polls copyID (n + 1) = Some r" by simp
    from IH [OF this] have "\<exists>m\<ge>n + 1. \<not> still_pending copyID (polls m)" .
    then obtain m where m: "n + 1 \<le> m" "\<not> still_pending copyID (polls m)"
      by (elim exE conjE)
    from m(1) have "n \<le> m" by simp
    with m(2) show ?thesis by blast
  qed
qed

lemma poll_loop_forever:
  assumes "\<forall>m. still_pending copyID (polls m)"
  shows "poll_loop polls copyID n = None"
proof (cases "poll_loop polls copyID n")
  case None
  then show ?thesis .
next
  case (Some r)
  from poll_loop_returns_not_pending [OF this] assms show ?thesis by blast
qed

lemma strip_both_no_suffix: "\<not> both_slash (strip_both param)"
proof (induction param rule: strip_both.induct)
  case (1 param)
  show ?case
  proof (cases "both_slash param")
    case True
    then have "strip_both param = strip_both
         (param\<lparr>CopySource := take (length (CopySource param) - 1) (CopySource param),
                CopyDestination :=
                  take (length (CopyDestination param) - 1) (CopyDestination param)\<rparr>)"
      by (subst strip_both.simps) simp
    with "1.IH" [OF True] show ?thesis by simp
  next
    case False
    then have "strip_both param = param" by (subst strip_both.simps) simp
    with False show ?thesis by simp
  qed
qed

lemma CopyBlob_strip_both: "CopyBlob pk b order param = CopyBlob pk b order (strip_both param)"
proof (induction param rule: strip_both.induct)
  case (1 param)
  show ?case
  proof (cases "both_slash param")
    case True
    let ?p = "param\<lparr>CopySource := take (length (CopySource param) - 1) (CopySource param),
                CopyDestination :=
                  take (length (CopyDestination param) - 1) (CopyDestination param)\<rparr>"
    from True have "CopyBlob pk b order param = CopyBlob pk b order ?p"
      by (subst CopyBlob.simps) simp
    also from "1.IH" [OF True] have "\<dots> = CopyBlob pk b order (strip_both ?p)" .
    also from True have "strip_both ?p = strip_both param"
      by (subst (2) strip_both.simps) simp
    finally show ?thesis .
  next
    case False
    then have "strip_both param = param" by (subst strip_both.simps) simp
    then show ?thesis by simp
  qed
qed


lemma CopyBlob_pending_loop:
  assumes rt: "refreshToken b = None"
    and start: "StartCopyFromURL (container b) (CopyDestination (strip_both param))
                  (CopySource (strip_both param))
                  (nilMetadata (ToLower pk) order (CopyMetadata (strip_both param)))
                = Inr (CopyStatusPending, copyID)"
  shows "CopyBlob pk b order param =
    (case poll_loop (PollProperties (container b) (CopyDestination (strip_both param))) copyID 0 of
       None \<Rightarrow> None
     | Some (err, n) \<Rightarrow>
         (case err of
            Some e \<Rightarrow> Some (Err (mapAZBError_nonnil (mapHttpError pk) e),
                             Sleep_ms 50 # replicate n (Poll (CopyDestination (strip_both param))))
          | None \<Rightarrow> Some (Ok (),
                             Sleep_ms 50 # replicate n (Poll (CopyDestination (strip_both param))))))"
proof -
  let ?p = "strip_both param"
  have "CopyBlob pk b order param = CopyBlob pk b order ?p" by (rule CopyBlob_strip_both)
  also have "\<dots> = (case poll_loop (PollProperties (container b) (CopyDestination ?p)) copyID 0 of
       None \<Rightarrow> None
     | Some (err, n) \<Rightarrow>
         (case err of
            Some e \<Rightarrow> Some (Err (mapAZBError_nonnil (mapHttpError pk) e),
                             Sleep_ms 50 # replicate n (Poll (CopyDestination ?p)))
          | None \<Rightarrow> Some (Ok (), Sleep_ms 50 # replicate n (Poll (CopyDestination ?p)))))"
    using rt start strip_both_no_suffix [of param]
    by (subst CopyBlob.simps) (simp add: Let_def split: option.splits prod.splits)
  finally show ?thesis .
qed

lemma mapAZBError_nonnil_switch:
  "ServiceCode e \<in> set switch_codes \<Longrightarrow> \<exists>n. mapAZBError_nonnil mh (Stg e) = Sys n"
  by (auto simp add: mapAZBError_nonnil_def switch_codes_def ServiceCode_defs)

lemma mapAZBError_nonnil_default:
  "ServiceCode e \<notin> set switch_codes \<Longrightarrow>
   mapAZBError_nonnil mh (Stg e) = (case mh (StatusCode e) of Some x \<Rightarrow> x | None \<Rightarrow> Stg e)"
  by (simp add: mapAZBError_nonnil_def switch_codes_def split: option.splits)

lemma ex_copy_strip: "strip_both ex_copy = ex_copy"
  by (subst strip_both.simps) (simp add: ex_copy_def both_slash_def HasSuffix_def)

lemma ex_poll_fails_run:
  "CopyBlob ex_pkg (ex_poll_fails err) [] ex_copy =
     Some (Err (mapAZBError_nonnil (mapHttpError ex_pkg) err), [Sleep_ms 50, Poll ''c'', Poll ''c''])"
proof -
  define polls where "polls = PollProperties (container (ex_poll_fails err)) ''c''"
  have rt: "refreshToken (ex_poll_fails err) = None"
    by (simp add: ex_poll_fails_def ex_backend_def)
  have start: "StartCopyFromURL (container (ex_poll_fails err)) (CopyDestination (strip_both ex_copy))
                  (CopySource (strip_both ex_copy))
                  (nilMetadata (ToLower ex_pkg) [] (CopyMetadata (strip_both ex_copy)))
                = Inr (CopyStatusPending, ''copy-1'')"
    by (simp add: ex_copy_strip ex_poll_fails_def ex_service_def)
  have p0: "still_pending ''copy-1'' (polls 0)"
    by (simp add: polls_def still_pending_def ex_poll_fails_def ex_props_def)
  have p1: "polls (0 + 1) = Inl err"
    by (simp add: polls_def ex_poll_fails_def)
  have "poll_loop polls ''copy-1'' 0 = poll_loop polls ''copy-1'' (0 + 1)"
    using p0 by (rule poll_loop_pending)
  also have "\<dots> = Some (Some err, 0 + 1 + 1)" using p1 by (rule poll_loop_error)
  finally have loop: "poll_loop polls ''copy-1'' 0 = Some (Some err, 2)" by simp
  have dest: "CopyDestination ex_copy = ''c''" by (simp add: ex_copy_def)
  from CopyBlob_pending_loop [OF rt start, of ] loop show ?thesis
    by (simp add: ex_copy_strip dest polls_def numeral_2_eq_2)
qed

text \<open>
  C3 (as amended). Let the copy that \<open>CopyBlob\<close> starts (on \<open>p\<close>, the input without
  the slashes that lines 697-701 take off) be reported pending with the id \<open>copyID\<close>,
  and let \<open>polls\<close> be the answers to the polls of the destination. The call sleeps
  50 ms and polls. If poll \<open>n\<close> is the first that is not still pending under that id,
  the call returns after \<open>n + 1\<close> polls: with success when that poll succeeded
  (another status, or another copy id); when it failed, with what \<open>mapAZBError\<close>
  makes of its error, which is an errno for a storage error whose service code has a
  case in the switch, and for any other storage error what \<open>mapHttpError\<close> gives for
  its status, or the storage error itself when that is \<open>nil\<close>. If every poll is
  still pending the call never returns. Success is returned only in the first way.
\<close>

theorem CopyBlob_pending:
  assumes rt: "refreshToken b = None"
    and p: "p = strip_both param"
    and start: "StartCopyFromURL (container b) (CopyDestination p) (CopySource p)
                  (nilMetadata (ToLower pk) order (CopyMetadata p)) = Inr (CopyStatusPending, copyID)"
    and polls: "polls = PollProperties (container b) (CopyDestination p)"
  shows "((\<forall>m<n. still_pending copyID (polls m)) \<and> polls n = Inr cp
            \<and> (CopyStatus cp \<noteq> CopyStatusPending \<or> CopyID cp \<noteq> copyID)
          \<longrightarrow> CopyBlob pk b order param =
                Some (Ok (), Sleep_ms 50 # replicate (n + 1) (Poll (CopyDestination p))))
    \<and> ((\<forall>m<n. still_pending copyID (polls m)) \<and> polls n = Inl err
          \<longrightarrow> CopyBlob pk b order param =
                Some (Err (mapAZBError_nonnil (mapHttpError pk) err),
                      Sleep_ms 50 # replicate (n + 1) (Poll (CopyDestination p))))
    \<and> ((\<forall>m<n. still_pending copyID (polls m)) \<and> polls n = Inl (Stg e)
          \<and> ServiceCode e \<in> set switch_codes
          \<longrightarrow> (\<exists>no. CopyBlob pk b order param =
                Some (Err (Sys no),
                      Sleep_ms 50 # replicate (n + 1) (Poll (CopyDestination p)))))
    \<and> ((\<forall>m<n. still_pending copyID (polls m)) \<and> polls n = Inl (Stg e)
          \<and> ServiceCode e \<notin> set switch_codes
          \<longrightarrow> CopyBlob pk b order param =
                Some (Err (case mapHttpError pk (StatusCode e) of Some x \<Rightarrow> x | None \<Rightarrow> Stg e),
                      Sleep_ms 50 # replicate (n + 1) (Poll (CopyDestination p))))
    \<and> ((\<forall>m. still_pending copyID (polls m)) \<longrightarrow> CopyBlob pk b order param = None)
    \<and> (\<forall>acts. CopyBlob pk b order param = Some (Ok (), acts) \<longrightarrow>
          (\<exists>n cp. (\<forall>m<n. still_pending copyID (polls m)) \<and> polls n = Inr cp
             \<and> (CopyStatus cp \<noteq> CopyStatusPending \<or> CopyID cp \<noteq> copyID)))"
proof -
  note run = CopyBlob_pending_loop [OF rt start [unfolded p], folded p, folded polls]
  have skip: "poll_loop polls copyID 0 = poll_loop polls copyID n"
    if "\<forall>m<n. still_pending copyID (polls m)" for n
    using poll_loop_skip [of n copyID polls 0] that by simp
  have finished: "CopyBlob pk b order param =
      Some (Ok (), Sleep_ms 50 # replicate (n + 1) (Poll (CopyDestination p)))"
    if "\<forall>m<n. still_pending copyID (polls m)" and "polls n = Inr cp"
      and "CopyStatus cp \<noteq> CopyStatusPending \<or> CopyID cp \<noteq> copyID" for n cp
    using run skip [OF that(1)] poll_loop_done [of polls n cp copyID, OF that(2,3)] by simp
  have failed: "CopyBlob pk b order param =
      Some (Err (mapAZBError_nonnil (mapHttpError pk) err),
            Sleep_ms 50 # replicate (n + 1) (Poll (CopyDestination p)))"
    if "\<forall>m<n. still_pending copyID (polls m)" and "polls n = Inl err" for n err
    using run skip [OF that(1)] poll_loop_error [of polls n err copyID, OF that(2)] by simp
  have listed: "\<exists>no. CopyBlob pk b order param =
      Some (Err (Sys no), Sleep_ms 50 # replicate (n + 1) (Poll (CopyDestination p)))"
    if "\<forall>m<n. still_pending copyID (polls m)" and "polls n = Inl (Stg e)"
      and "ServiceCode e \<in> set switch_codes" for n e
    using failed [OF that(1,2)] mapAZBError_nonnil_switch [OF that(3), of "mapHttpError pk"]
    by auto
  have unlisted: "CopyBlob pk b order param =
      Some (Err (case mapHttpError pk (StatusCode e) of Some x \<Rightarrow> x | None \<Rightarrow> Stg e),
            Sleep_ms 50 # replicate (n + 1) (Poll (CopyDestination p)))"
    if "\<forall>m<n. still_pending copyID (polls m)" and "polls n = Inl (Stg e)"
      and "ServiceCode e \<notin> set switch_codes" for n e
    using failed [OF that(1,2)] mapAZBError_nonnil_default [OF that(3), of "mapHttpError pk"]
    by simp
  have forever: "CopyBlob pk b order param = None" if "\<forall>m. still_pending copyID (polls m)"
    using run poll_loop_forever [OF that, of 0] by simp
  have only: "\<exists>n cp. (\<forall>m<n. still_pending copyID (polls m)) \<and> polls n = Inr cp
             \<and> (CopyStatus cp \<noteq> CopyStatusPending \<or> CopyID cp \<noteq> copyID)"
    if ok: "CopyBlob pk b order param = Some (Ok (), acts)" for acts
  proof -
    from ok forever have "\<exists>m. \<not> still_pending copyID (polls m)" by auto
    then obtain m0 where m0: "\<not> still_pending copyID (polls m0)" ..
    define n where "n = (LEAST m. \<not> still_pending copyID (polls m))"
    from m0 have nn: "\<not> still_pending copyID (polls n)" unfolding n_def by (rule LeastI)
    have before: "\<forall>m<n. still_pending copyID (polls m)"
      unfolding n_def using not_less_Least by blast
    show ?thesis
    proof (cases "polls n")
      case (Inl err)
      from failed [OF before Inl] ok show ?thesis by simp
    next
      case (Inr cp)
      with nn have "CopyStatus cp \<noteq> CopyStatusPending \<or> CopyID cp \<noteq> copyID"
        by (simp add: still_pending_def)
      with before Inr show ?thesis by blast
    qed
  qed
  show ?thesis
    apply (intro conjI impI allI)
    subgoal using finished by blast
    subgoal using failed by blast
    subgoal using listed by blast
    subgoal using unlisted by blast
    subgoal using forever by blast
    subgoal using only by blast
    done
qed


text \<open>
  The example service reports the copy pending at the first two polls and done at the
  third; with a second poll that fails with \<open>ServerBusy\<close> the call returns
  \<open>EAGAIN\<close>.
\<close>

theorem CopyBlob_pending_witness:
  "CopyBlob ex_pkg ex_backend [] ex_copy
     = Some (Ok (), [Sleep_ms 50, Poll ''c'', Poll ''c'', Poll ''c''])
   \<and> CopyBlob ex_pkg (ex_poll_fails (Stg \<lparr>ServiceCode = ''ServerBusy'', StatusCode = 503\<rparr>)) [] ex_copy
     = Some (Err (Sys EAGAIN), [Sleep_ms 50, Poll ''c'', Poll ''c''])"
proof -
  define polls where "polls = PollProperties (container ex_backend) (CopyDestination ex_copy)"
  define cp where "cp = (ex_props Map.empty)\<lparr>CopyStatus := CopyStatusSuccess, CopyID := ''copy-1''\<rparr>"
  have rt: "refreshToken ex_backend = None" by (simp add: ex_backend_def)
  have p: "ex_copy = strip_both ex_copy" by (simp add: ex_copy_strip)
  have start: "StartCopyFromURL (container ex_backend) (CopyDestination ex_copy) (CopySource ex_copy)
                  (nilMetadata (ToLower ex_pkg) [] (CopyMetadata ex_copy)) = Inr (CopyStatusPending, ''copy-1'')"
    by (simp add: ex_backend_def ex_service_def)
  have pend: "\<forall>m<2. still_pending ''copy-1'' (polls m)"
    by (simp add: polls_def still_pending_def ex_backend_def ex_service_def ex_props_def)
  have last: "polls 2 = Inr cp" "CopyStatus cp \<noteq> CopyStatusPending \<or> CopyID cp \<noteq> ''copy-1''"
    by (simp_all add: polls_def cp_def ex_backend_def ex_service_def ex_props_def)
  from CopyBlob_pending [OF rt p start polls_def, where n = 2 and cp = cp] pend last
  have "CopyBlob ex_pkg ex_backend [] ex_copy =
      Some (Ok (), Sleep_ms 50 # replicate (2 + 1) (Poll (CopyDestination ex_copy)))"
    by blast
  then have first: "CopyBlob ex_pkg ex_backend [] ex_copy
     = Some (Ok (), [Sleep_ms 50, Poll ''c'', Poll ''c'', Poll ''c''])"
    by (simp add: ex_copy_def numeral_3_eq_3)
  define busy where "busy = Stg \<lparr>ServiceCode = ''ServerBusy'', StatusCode = 503\<rparr>"
  define fb where "fb = ex_poll_fails busy"
  define fpolls where "fpolls = PollProperties (container fb) (CopyDestination ex_copy)"
  have frt: "refreshToken fb = None" by (simp add: fb_def ex_poll_fails_def ex_backend_def)
  have fstart: "StartCopyFromURL (container fb) (CopyDestination ex_copy) (CopySource ex_copy)
                  (nilMetadata (ToLower ex_pkg) [] (CopyMetadata ex_copy)) = Inr (CopyStatusPending, ''copy-1'')"
    by (simp add: fb_def ex_poll_fails_def ex_service_def)
  have fpend: "\<forall>m<1. still_pending ''copy-1'' (fpolls m)"
    by (simp add: fpolls_def fb_def still_pending_def ex_poll_fails_def ex_props_def)
  have flast: "fpolls 1 = Inl busy"
    by (simp add: fpolls_def fb_def ex_poll_fails_def)
  from CopyBlob_pending [OF frt p fstart fpolls_def, where n = 1 and err = busy] fpend flast
  have "CopyBlob ex_pkg fb [] ex_copy =
      Some (Err (mapAZBError_nonnil (mapHttpError ex_pkg) busy),
            Sleep_ms 50 # replicate (1 + 1) (Poll (CopyDestination ex_copy)))"
    by blast
  then have second: "CopyBlob ex_pkg fb [] ex_copy
     = Some (Err (Sys EAGAIN), [Sleep_ms 50, Poll ''c'', Poll ''c''])"
    by (simp add: ex_copy_def busy_def mapAZBError_nonnil_def ServiceCode_defs numeral_2_eq_2)
  from first second show ?thesis unfolding fb_def busy_def by (intro conjI)
qed

text \<open>
  C3 as stated fails in its last part: the error of a poll is not always mapped to an
  errno. When the second poll fails with the storage error \<open>LeaseLost\<close> of status
  412, which has no case in the switch of \<open>mapAZBError\<close> and for which
  \<open>mapHttpError\<close> gives \<open>nil\<close>, \<open>CopyBlob\<close> returns the storage error itself.
\<close>

theorem CopyBlob_poll_error_counterexample:
  "CopyBlob ex_pkg (ex_poll_fails (Stg \<lparr>ServiceCode = ''LeaseLost'', StatusCode = 412\<rparr>)) [] ex_copy
   = Some (Err (Stg \<lparr>ServiceCode = ''LeaseLost'', StatusCode = 412\<rparr>),
           [Sleep_ms 50, Poll ''c'', Poll ''c''])"
proof -
  have "mapAZBError_nonnil (mapHttpError ex_pkg) (Stg \<lparr>ServiceCode = ''LeaseLost'', StatusCode = 412\<rparr>)
      = Stg \<lparr>ServiceCode = ''LeaseLost'', StatusCode = 412\<rparr>"
    by (simp add: mapAZBError_nonnil_def ServiceCode_defs ex_pkg_def)
  with ex_poll_fails_run [of "Stg \<lparr>ServiceCode = ''LeaseLost'', StatusCode = 412\<rparr>"]
  show ?thesis by simp
qed


subsection \<open>Multipart uploads\<close>









lemma EncodeToString_examples:
  "EncodeToString ''Man'' = ''TWFu'' \<and> EncodeToString ''Ma'' = ''TWE=''
   \<and> EncodeToString ''M'' = ''TQ=='' \<and> EncodeToString ''ab::00001'' = ''YWI6OjAwMDAx''"
  by (simp add: quantum_def encodeStd_def)























lemma replicate_4: "replicate 4 c = [c, c, c, c]"
  by (simp add: numeral_eq_Suc)

lemma fmt_05d_examples: "fmt_05d 7 = ''00007'' \<and> fmt_05d 50000 = ''50000'' \<and> fmt_05d 123456 = ''123456''"
  by (simp add: fmt_05d_def dec.simps digit_char_def replicate_4)




lemma commit_parts_Some:
  "commit_parts parts n = Some ids \<Longrightarrow>
   n \<le> length parts \<and> map Some ids = take n parts"
proof (induction parts n arbitrary: ids rule: commit_parts.induct)
  case (4 p parts n)
  then show ?case by auto
qed simp_all










lemma MultipartBlobCommit_panics:
  assumes "refreshToken b = None"
    and "length (Parts c) < unat (NumParts c) \<or> (\<exists>i < unat (NumParts c). Parts c ! i = None)"
  shows "MultipartBlobCommit pk b order c = Panic"
proof (cases "commit_parts (Parts c) (unat (NumParts c))")
  case None
  with assms(1) show ?thesis by (simp add: MultipartBlobCommit_def)
next
  case (Some ids)
  from commit_parts_Some [OF Some] have le: "unat (NumParts c) \<le> length (Parts c)"
    and eq: "map Some ids = take (unat (NumParts c)) (Parts c)" by simp_all
  from assms(2) le obtain i where i: "i < unat (NumParts c)" "Parts c ! i = None" by auto
  from i(1) have "take (unat (NumParts c)) (Parts c) ! i = Parts c ! i" by simp
  with eq [symmetric] i le have "map Some ids ! i = None" by simp
  moreover from eq i(1) le have "i < length ids"
    by (metis length_map length_take min.absorb2)
  ultimately show ?thesis by simp
qed





end
